theory Spec2Isabelle
  imports Complex_Main "HOL-Library.Log_Nat" "HOL-Library.Product_Lexorder"
begin

section \<open>JavaScript values\<close>

text \<open>
  The models and services are written in JavaScript and receive loosely typed records.
  A value is one of the shapes below. A number is a finite rational, NaN or an infinity;
  a date is an instant (milliseconds since the epoch) or the invalid date.
\<close>

datatype jsnum = Fin rat | NaN | PosInf | NegInf

datatype jsdate = Instant int | InvalidDate

datatype jsval =
    Undefined
  | Null
  | Bool bool
  | Num jsnum
  | Str string
  | DateV jsdate
  | Arr "jsval list"
  | Obj "(string \<times> jsval) list"

text \<open>Truthiness, as \<open>!x\<close>, \<open>x || y\<close> and \<open>Boolean(x)\<close> read it.\<close>

fun truthy :: "jsval \<Rightarrow> bool" where
  "truthy Undefined = False"
| "truthy Null = False"
| "truthy (Bool b) = b"
| "truthy (Num (Fin r)) = (r \<noteq> 0)"
| "truthy (Num NaN) = False"
| "truthy (Num PosInf) = True"
| "truthy (Num NegInf) = True"
| "truthy (Str s) = (s \<noteq> [])"
| "truthy (DateV d) = True"
| "truthy (Arr xs) = True"
| "truthy (Obj ps) = True"

fun typeof :: "jsval \<Rightarrow> string" where
  "typeof Undefined = ''undefined''"
| "typeof Null = ''object''"
| "typeof (Bool b) = ''boolean''"
| "typeof (Num n) = ''number''"
| "typeof (Str s) = ''string''"
| "typeof (DateV d) = ''object''"
| "typeof (Arr xs) = ''object''"
| "typeof (Obj ps) = ''object''"

text \<open>\<open>a || b\<close>\<close>

definition or_else :: "jsval \<Rightarrow> jsval \<Rightarrow> jsval" where
  "or_else a b = (if truthy a then a else b)"

subsection \<open>Double-precision arithmetic\<close>

text \<open>
  JavaScript numbers are IEEE 754 doubles: the result of \<open>a + b\<close>, \<open>a - b\<close>,
  \<open>a * b\<close> and \<open>a / b\<close> is the exact result rounded to the nearest value with a
  53-bit significand, ties to the even significand.
  \<open>to_double\<close> is that rounding on the rationals, for magnitudes in the normal range
  (no overflow to infinity, no subnormals). \<open>Math.round\<close> rounds to the nearest
  integer, a tie going up.
\<close>

definition pow2 :: "int \<Rightarrow> rat" where
  "pow2 k = (if 0 \<le> k then 2 ^ nat k else 1 / 2 ^ nat (- k))"

definition exponent :: "rat \<Rightarrow> int" where
  "exponent x = (let (a, b) = quotient_of x; d = bitlen a - bitlen b
                 in if pow2 d \<le> x then d else d - 1)"

definition round_even :: "rat \<Rightarrow> int" where
  "round_even x = (let f = \<lfloor>x\<rfloor>; d = x - of_int f
                   in if d < 1 / 2 then f else if 1 / 2 < d then f + 1
                      else if even f then f else f + 1)"

definition round_pos :: "rat \<Rightarrow> rat" where
  "round_pos x = (let e = exponent x in of_int (round_even (x * pow2 (52 - e))) * pow2 (e - 52))"

definition to_double :: "rat \<Rightarrow> rat" where
  "to_double x = (if x = 0 then 0 else if 0 < x then round_pos x else - round_pos (- x))"

definition Math_round :: "rat \<Rightarrow> int" where
  "Math_round x = \<lfloor>x + 1 / 2\<rfloor>"

text \<open>
  Comparisons of a number with zero, and \<open>x++\<close>, \<open>x--\<close> (the value the variable
  holds afterwards). NaN compares false.
\<close>

fun num_lt0 :: "jsnum \<Rightarrow> bool" where
  "num_lt0 (Fin r) = (r < 0)"
| "num_lt0 NaN = False"
| "num_lt0 PosInf = False"
| "num_lt0 NegInf = True"

fun num_gt0 :: "jsnum \<Rightarrow> bool" where
  "num_gt0 (Fin r) = (0 < r)"
| "num_gt0 NaN = False"
| "num_gt0 PosInf = True"
| "num_gt0 NegInf = False"

fun num_ge0 :: "jsnum \<Rightarrow> bool" where
  "num_ge0 (Fin r) = (0 \<le> r)"
| "num_ge0 NaN = False"
| "num_ge0 PosInf = True"
| "num_ge0 NegInf = False"

fun num_inc :: "jsnum \<Rightarrow> jsnum" where
  "num_inc (Fin r) = Fin (to_double (r + 1))"
| "num_inc x = x"

fun num_dec :: "jsnum \<Rightarrow> jsnum" where
  "num_dec (Fin r) = Fin (to_double (r - 1))"
| "num_dec x = x"

text \<open>Property access \<open>o.k\<close> on an object literal: the first binding of the key, or undefined.\<close>

fun get_prop :: "(string \<times> jsval) list \<Rightarrow> string \<Rightarrow> jsval" where
  "get_prop [] k = Undefined"
| "get_prop ((k', v) # ps) k = (if k' = k then v else get_prop ps k)"

text \<open>A destructured parameter \<open>{k = d}\<close>: the default replaces undefined only.\<close>

definition param :: "(string \<times> jsval) list \<Rightarrow> string \<Rightarrow> jsval \<Rightarrow> jsval" where
  "param ps k d = (if get_prop ps k = Undefined then d else get_prop ps k)"

subsection \<open>Strings\<close>

text \<open>
  A string is a list of 8-bit characters. \<open>trim\<close> removes the white space of that
  range at both ends (tab, line feed, vertical tab, form feed, carriage return, space,
  no-break space); \<open>toLowerCase\<close> maps the capital letters of that range (A to Z and the
  accented capitals from 192 to 222, the multiplication sign apart) to their small letters.
\<close>

definition is_space :: "char \<Rightarrow> bool" where
  "is_space c = (of_char c \<in> {9::nat, 10, 11, 12, 13, 32, 160})"

definition trim :: "string \<Rightarrow> string" where
  "trim s = rev (dropWhile is_space (rev (dropWhile is_space s)))"

definition lower_char :: "char \<Rightarrow> char" where
  "lower_char c =
    (let n = (of_char c :: nat)
     in if (65 \<le> n \<and> n \<le> 90) \<or> (192 \<le> n \<and> n \<le> 214) \<or> (216 \<le> n \<and> n \<le> 222)
        then char_of (n + 32) else c)"

definition toLowerCase :: "string \<Rightarrow> string" where
  "toLowerCase s = map lower_char s"

subsection \<open>The environment\<close>

text \<open>
  What the code takes from outside: the identifier generator, the clock, the date
  parser and printer of the platform, the JSON printer and parser, and the behaviour of
  a write to the browser's key-value store (\<open>localStorage.setItem\<close>), which either
  throws or gives the new contents. Every call of \<open>uuidv4()\<close> or \<open>new Date()\<close>
  consumes one tick of a counter that is threaded through the model. \<open>JSON_parse\<close>
  gives \<open>None\<close> where \<open>JSON.parse\<close> throws.
\<close>

datatype store_error = QuotaExceededError | OtherStoreError

record env =
  uuidv4 :: "nat \<Rightarrow> string"
  clock :: "nat \<Rightarrow> int"
  Date_parse :: "string \<Rightarrow> jsdate"
  Date_of :: "jsval \<Rightarrow> jsdate"
  toISOString :: "int \<Rightarrow> string"
  setItem :: "(string \<times> string) list \<Rightarrow> string \<Rightarrow> string \<Rightarrow> store_error + (string \<times> string) list"
  JSON_stringify :: "jsval \<Rightarrow> string"
  JSON_parse :: "string \<Rightarrow> jsval option"

text \<open>\<open>new Date(v)\<close>\<close>

definition new_Date :: "env \<Rightarrow> jsval \<Rightarrow> jsdate" where
  "new_Date e v = (case v of DateV d \<Rightarrow> d | Str s \<Rightarrow> Date_parse e s | _ \<Rightarrow> Date_of e v)"

datatype error =
    TaskTitleRequired
  | PriorityInvalid
  | DueDateInvalid
  | ChecklistNotArray
  | ChecklistItemNotObject nat
  | ChecklistItemNoText nat
  | ChecklistItemNoCompleted nat
  | ChecklistItemTextRequired
  | ChecklistItemNotFound
  | ProjectNameRequired
  | TaskCountInvalid
  | TypeError
  | RangeError
  | ProjectIdRequired
  | CannotDeleteDefault
  | ProjectNotFound
  | FailedTo string error

section \<open>Project\<close>

record project =
  project_id :: jsval
  name :: string
  project_createdAt :: jsdate
  taskCount :: jsnum

text \<open>
  The constructor. The argument is the object literal it destructures; the result is
  the thrown error or the instance together with the advanced tick counter.
\<close>

definition Project_new :: "env \<Rightarrow> nat \<Rightarrow> (string \<times> jsval) list \<Rightarrow> error + (project \<times> nat)" where
  "Project_new e n arg =
    (let id = param arg ''id'' Null;
         nm = get_prop arg ''name'';
         created = param arg ''createdAt'' Null;
         cnt = param arg ''taskCount'' (Num (Fin 0))
     in case nm of
          Str s \<Rightarrow>
            if \<not> truthy nm \<or> trim s = [] then Inl ProjectNameRequired
            else (case cnt of
                    Num c \<Rightarrow>
                      if num_lt0 c then Inl TaskCountInvalid
                      else
                        (let (id', n1) = (if truthy id then (id, n) else (Str (uuidv4 e n), Suc n));
                             (created', n2) = (if truthy created then (new_Date e created, n1)
                                               else (Instant (clock e n1), Suc n1))
                         in Inr (\<lparr>project_id = id', name = trim s,
                                   project_createdAt = created', taskCount = c\<rparr>, n2))
                  | _ \<Rightarrow> Inl TaskCountInvalid)
        | _ \<Rightarrow> Inl ProjectNameRequired)"

text \<open>
  \<open>update\<close> mutates the instance field by field. The result is the outcome (the thrown
  error, or unit) and the instance as the call leaves it.
\<close>

definition Project_update :: "(string \<times> jsval) list \<Rightarrow> project \<Rightarrow> (error + unit) \<times> project" where
  "Project_update updates p =
    (let nm = get_prop updates ''name'';
         r1 = (if nm \<noteq> Undefined then
                 (case nm of
                    Str s \<Rightarrow> if \<not> truthy nm \<or> trim s = [] then (Inl ProjectNameRequired, p)
                              else (Inr (), p\<lparr>name := trim s\<rparr>)
                  | _ \<Rightarrow> (Inl ProjectNameRequired, p))
               else (Inr (), p))
     in case r1 of
          (Inl err, p1) \<Rightarrow> (Inl err, p1)
        | (Inr _, p1) \<Rightarrow>
            (let cnt = get_prop updates ''taskCount''
             in if cnt \<noteq> Undefined then
                  (case cnt of
                     Num c \<Rightarrow> if num_lt0 c then (Inl TaskCountInvalid, p1)
                               else (Inr (), p1\<lparr>taskCount := c\<rparr>)
                   | _ \<Rightarrow> (Inl TaskCountInvalid, p1))
                else (Inr (), p1)))"

definition incrementTaskCount :: "project \<Rightarrow> project" where
  "incrementTaskCount p = p\<lparr>taskCount := num_inc (taskCount p)\<rparr>"

definition decrementTaskCount :: "project \<Rightarrow> project" where
  "decrementTaskCount p = (if num_gt0 (taskCount p) then p\<lparr>taskCount := num_dec (taskCount p)\<rparr> else p)"

definition setTaskCount :: "jsval \<Rightarrow> project \<Rightarrow> (error + unit) \<times> project" where
  "setTaskCount count p =
    (case count of
       Num c \<Rightarrow> if num_lt0 c then (Inl TaskCountInvalid, p) else (Inr (), p\<lparr>taskCount := c\<rparr>)
     | _ \<Rightarrow> (Inl TaskCountInvalid, p))"

definition isDefault :: "project \<Rightarrow> bool" where
  "isDefault p = (project_id p = Str ''default'' \<or> toLowerCase (name p) = ''default'')"


section \<open>Task\<close>

record checklist_item =
  item_id :: jsval
  item_text :: string
  item_completed :: bool

record task =
  task_id :: jsval
  title :: string
  description :: jsval
  dueDate :: "jsdate option"
  priority :: string
  task_notes :: jsval
  checklist :: "checklist_item list"
  completed :: bool
  projectId :: jsval
  createdAt :: jsdate
  updatedAt :: jsdate

text \<open>Property access \<open>v.k\<close> on a value that is not null or undefined.\<close>

definition prop_of :: "jsval \<Rightarrow> string \<Rightarrow> jsval" where
  "prop_of v k = (case v of Obj ps \<Rightarrow> get_prop ps k | _ \<Rightarrow> Undefined)"

text \<open>The characters of a value known to be a string.\<close>

definition str_of :: "jsval \<Rightarrow> string" where
  "str_of v = (case v of Str s \<Rightarrow> s | _ \<Rightarrow> [])"

definition is_Date :: "jsval \<Rightarrow> bool" where
  "is_Date v = (case v of DateV d \<Rightarrow> True | _ \<Rightarrow> False)"

definition validPriorities :: "string list" where
  "validPriorities = [''high'', ''medium'', ''low'']"

text \<open>The checks of the constructor on one checklist item, in the order of the source.\<close>

definition check_item :: "nat \<Rightarrow> jsval \<Rightarrow> error option" where
  "check_item i item =
    (if \<not> truthy item \<or> typeof item \<noteq> ''object'' then Some (ChecklistItemNotObject i)
     else if \<not> truthy (prop_of item ''text'') \<or> typeof (prop_of item ''text'') \<noteq> ''string''
       then Some (ChecklistItemNoText i)
     else if typeof (prop_of item ''completed'') \<noteq> ''boolean'' then Some (ChecklistItemNoCompleted i)
     else None)"

fun check_items :: "nat \<Rightarrow> jsval list \<Rightarrow> error option" where
  "check_items i [] = None"
| "check_items i (x # xs) =
     (case check_item i x of Some err \<Rightarrow> Some err | None \<Rightarrow> check_items (Suc i) xs)"

text \<open>
  \<open>checklist.map(item => ({id: item.id || uuidv4(), text: item.text.trim(), completed:
  Boolean(item.completed)}))\<close>, run on items that passed the checks.
\<close>

fun build_items :: "env \<Rightarrow> nat \<Rightarrow> jsval list \<Rightarrow> checklist_item list \<times> nat" where
  "build_items e n [] = ([], n)"
| "build_items e n (x # xs) =
     (let (id', n1) = (if truthy (prop_of x ''id'') then (prop_of x ''id'', n)
                       else (Str (uuidv4 e n), Suc n));
          (rest, n2) = build_items e n1 xs
      in (\<lparr>item_id = id',
           item_text = trim (str_of (prop_of x ''text'')),
           item_completed = truthy (prop_of x ''completed'')\<rparr> # rest, n2))"

text \<open>
  The constructor validates first and assigns afterwards. \<open>Task_validate\<close> is the
  validation: the error the constructor throws, if any.
\<close>

definition Task_validate :: "(string \<times> jsval) list \<Rightarrow> error option" where
  "Task_validate arg =
    (let ttl = get_prop arg ''title'';
         due = param arg ''dueDate'' Null;
         prio = param arg ''priority'' (Str ''medium'');
         chk = param arg ''checklist'' (Arr [])
     in if \<not> truthy ttl \<or> typeof ttl \<noteq> ''string'' \<or> trim (str_of ttl) = [] then Some TaskTitleRequired
        else if prio \<notin> set (map Str validPriorities) then Some PriorityInvalid
        else if due \<noteq> Null \<and> \<not> is_Date due \<and> typeof due \<noteq> ''string'' then Some DueDateInvalid
        else (case chk of Arr items \<Rightarrow> check_items 0 items | _ \<Rightarrow> Some ChecklistNotArray))"

definition Task_new :: "env \<Rightarrow> nat \<Rightarrow> (string \<times> jsval) list \<Rightarrow> error + (task \<times> nat)" where
  "Task_new e n arg =
    (case Task_validate arg of
       Some err \<Rightarrow> Inl err
     | None \<Rightarrow>
        (let id = param arg ''id'' Null;
             ttl = get_prop arg ''title'';
             descr = param arg ''description'' (Str []);
             due = param arg ''dueDate'' Null;
             prio = param arg ''priority'' (Str ''medium'');
             nts = param arg ''notes'' (Str []);
             chk = param arg ''checklist'' (Arr []);
             compl = param arg ''completed'' (Bool False);
             pid = param arg ''projectId'' (Str ''default'');
             created = param arg ''createdAt'' Null;
             updated = param arg ''updatedAt'' Null;
             (id', n1) = (if truthy id then (id, n) else (Str (uuidv4 e n), Suc n));
             due' = (if truthy due
                     then Some (case due of DateV d \<Rightarrow> d | _ \<Rightarrow> new_Date e due)
                     else None);
             (items', n2) = build_items e n1 (case chk of Arr items \<Rightarrow> items | _ \<Rightarrow> []);
             (created', n3) = (if truthy created then (new_Date e created, n2)
                               else (Instant (clock e n2), Suc n2));
             (updated', n4) = (if truthy updated then (new_Date e updated, n3)
                               else (Instant (clock e n3), Suc n3))
         in Inr (\<lparr>task_id = id', title = trim (str_of ttl), description = or_else descr (Str []),
                   dueDate = due', priority = str_of prio, task_notes = or_else nts (Str []),
                   checklist = items', completed = truthy compl,
                   projectId = or_else pid (Str ''default''),
                   createdAt = created', updatedAt = updated'\<rparr>, n4)))"

text \<open>The instance's fields as the values other code reads from it.\<close>

definition item_value :: "checklist_item \<Rightarrow> jsval" where
  "item_value it = Obj [(''id'', item_id it), (''text'', Str (item_text it)), (''completed'', Bool (item_completed it))]"

definition date_value :: "jsdate option \<Rightarrow> jsval" where
  "date_value d = (case d of None \<Rightarrow> Null | Some x \<Rightarrow> DateV x)"

text \<open>\<open>updates.k !== undefined ? updates.k : this.k\<close>\<close>

definition provided :: "(string \<times> jsval) list \<Rightarrow> string \<Rightarrow> jsval \<Rightarrow> jsval" where
  "provided updates k cur = (if get_prop updates k \<noteq> Undefined then get_prop updates k else cur)"

text \<open>
  \<open>update\<close> builds the merged record, constructs a new task from it and only then
  assigns the new task's fields to the instance. The result is the outcome, the
  instance as the call leaves it, and the tick counter.
\<close>

definition Task_update :: "env \<Rightarrow> nat \<Rightarrow> (string \<times> jsval) list \<Rightarrow> task \<Rightarrow> (error + unit) \<times> task \<times> nat" where
  "Task_update e n updates t =
    (let updatedData =
           [(''id'', task_id t),
            (''title'', provided updates ''title'' (Str (title t))),
            (''description'', provided updates ''description'' (description t)),
            (''dueDate'', provided updates ''dueDate'' (date_value (dueDate t))),
            (''priority'', provided updates ''priority'' (Str (priority t))),
            (''notes'', provided updates ''notes'' (task_notes t)),
            (''checklist'', provided updates ''checklist'' (Arr (map item_value (checklist t)))),
            (''completed'', provided updates ''completed'' (Bool (completed t))),
            (''projectId'', provided updates ''projectId'' (projectId t)),
            (''createdAt'', DateV (createdAt t)),
            (''updatedAt'', DateV (Instant (clock e n)))]
     in case Task_new e (Suc n) updatedData of
          Inl err \<Rightarrow> (Inl err, t, Suc n)
        | Inr (updatedTask, n') \<Rightarrow> (Inr (), updatedTask, n'))"

definition toggleCompletion :: "env \<Rightarrow> nat \<Rightarrow> task \<Rightarrow> task \<times> nat" where
  "toggleCompletion e n t = (t\<lparr>completed := \<not> completed t, updatedAt := Instant (clock e n)\<rparr>, Suc n)"

definition addChecklistItem :: "env \<Rightarrow> nat \<Rightarrow> jsval \<Rightarrow> task \<Rightarrow> (error + unit) \<times> task \<times> nat" where
  "addChecklistItem e n txt t =
    (case txt of
       Str s \<Rightarrow>
         if \<not> truthy txt \<or> trim s = [] then (Inl ChecklistItemTextRequired, t, n)
         else (Inr (),
               t\<lparr>checklist := checklist t @ [\<lparr>item_id = Str (uuidv4 e n), item_text = trim s, item_completed = False\<rparr>],
                 updatedAt := Instant (clock e (Suc n))\<rparr>,
               Suc (Suc n))
     | _ \<Rightarrow> (Inl ChecklistItemTextRequired, t, n))"

text \<open>
  Identifiers are compared with \<open>===\<close>. On primitive values that is equality of the
  values, except that NaN equals nothing. The identity of objects is not modelled: on
  two objects, arrays or dates \<open>strict_eq\<close> compares their contents, where \<open>===\<close> asks
  for the same object. The identifiers of this program are strings, and \<open>strict_eq\<close>
  agrees with \<open>===\<close> whenever one side is a primitive value.
\<close>

definition strict_eq :: "jsval \<Rightarrow> jsval \<Rightarrow> bool" where
  "strict_eq a b = (a = b \<and> a \<noteq> Num NaN)"

fun find_index :: "('a \<Rightarrow> bool) \<Rightarrow> 'a list \<Rightarrow> nat option" where
  "find_index P [] = None"
| "find_index P (x # xs) = (if P x then Some 0 else map_option Suc (find_index P xs))"

definition updateChecklistItem ::
    "env \<Rightarrow> nat \<Rightarrow> jsval \<Rightarrow> (string \<times> jsval) list \<Rightarrow> task \<Rightarrow> (error + unit) \<times> task \<times> nat" where
  "updateChecklistItem e n itemId updates t =
    (case find_index (\<lambda>it. strict_eq (item_id it) itemId) (checklist t) of
       None \<Rightarrow> (Inl ChecklistItemNotFound, t, n)
     | Some i \<Rightarrow>
        (let it = checklist t ! i;
             txt = get_prop updates ''text'';
             r1 = (if txt \<noteq> Undefined then
                     (case txt of
                        Str s \<Rightarrow> if \<not> truthy txt \<or> trim s = [] then Inl ChecklistItemTextRequired
                                  else Inr (it\<lparr>item_text := trim s\<rparr>)
                      | _ \<Rightarrow> Inl ChecklistItemTextRequired)
                   else Inr it)
         in case r1 of
              Inl err \<Rightarrow> (Inl err, t, n)
            | Inr it1 \<Rightarrow>
               (let it2 = (if get_prop updates ''completed'' \<noteq> Undefined
                           then it1\<lparr>item_completed := truthy (get_prop updates ''completed'')\<rparr> else it1)
                in (Inr (), t\<lparr>checklist := (checklist t)[i := it2], updatedAt := Instant (clock e n)\<rparr>, Suc n))))"

definition removeChecklistItem :: "env \<Rightarrow> nat \<Rightarrow> jsval \<Rightarrow> task \<Rightarrow> (error + unit) \<times> task \<times> nat" where
  "removeChecklistItem e n itemId t =
    (case find_index (\<lambda>it. strict_eq (item_id it) itemId) (checklist t) of
       None \<Rightarrow> (Inl ChecklistItemNotFound, t, n)
     | Some i \<Rightarrow>
        (Inr (), t\<lparr>checklist := take i (checklist t) @ drop (Suc i) (checklist t),
                  updatedAt := Instant (clock e n)\<rparr>, Suc n))"

record progress =
  completed_count :: nat
  total :: nat
  percentage :: int

definition getChecklistProgress :: "task \<Rightarrow> progress" where
  "getChecklistProgress t =
    (if length (checklist t) = 0 then \<lparr>completed_count = 0, total = 0, percentage = 0\<rparr>
     else
       (let c = length (filter item_completed (checklist t));
            n = length (checklist t)
        in \<lparr>completed_count = c, total = n,
            percentage = Math_round (to_double (to_double (of_nat c / of_nat n) * 100))\<rparr>))"

text \<open>\<open>toJSON\<close>: \<open>toISOString\<close> throws a RangeError on an invalid date.\<close>

definition iso :: "env \<Rightarrow> jsdate \<Rightarrow> error + jsval" where
  "iso e d = (case d of Instant t \<Rightarrow> Inr (Str (toISOString e t)) | InvalidDate \<Rightarrow> Inl RangeError)"

definition Task_toJSON :: "env \<Rightarrow> task \<Rightarrow> error + jsval" where
  "Task_toJSON e t =
    (case (case dueDate t of None \<Rightarrow> Inr Null | Some d \<Rightarrow> iso e d) of
       Inl err \<Rightarrow> Inl err
     | Inr due \<Rightarrow>
        (case iso e (createdAt t) of
           Inl err \<Rightarrow> Inl err
         | Inr created \<Rightarrow>
            (case iso e (updatedAt t) of
               Inl err \<Rightarrow> Inl err
             | Inr updated \<Rightarrow>
                Inr (Obj [(''id'', task_id t), (''title'', Str (title t)),
                          (''description'', description t), (''dueDate'', due),
                          (''priority'', Str (priority t)), (''notes'', task_notes t),
                          (''checklist'', Arr (map item_value (checklist t))),
                          (''completed'', Bool (completed t)), (''projectId'', projectId t),
                          (''createdAt'', created), (''updatedAt'', updated)]))))"

text \<open>
  \<open>fromJSON(data)\<close> reads eleven properties of \<open>data\<close>; reading a property of null or
  undefined throws a TypeError.
\<close>

definition Task_fromJSON :: "env \<Rightarrow> nat \<Rightarrow> jsval \<Rightarrow> error + (task \<times> nat)" where
  "Task_fromJSON e n data =
    (if data = Null \<or> data = Undefined then Inl TypeError
     else Task_new e n
       [(''id'', prop_of data ''id''), (''title'', prop_of data ''title''),
        (''description'', prop_of data ''description''), (''dueDate'', prop_of data ''dueDate''),
        (''priority'', prop_of data ''priority''), (''notes'', prop_of data ''notes''),
        (''checklist'', or_else (prop_of data ''checklist'') (Arr [])),
        (''completed'', prop_of data ''completed''), (''projectId'', prop_of data ''projectId''),
        (''createdAt'', prop_of data ''createdAt''), (''updatedAt'', prop_of data ''updatedAt'')])"

definition Project_toJSON :: "env \<Rightarrow> project \<Rightarrow> error + jsval" where
  "Project_toJSON e p =
    (case iso e (project_createdAt p) of
       Inl err \<Rightarrow> Inl err
     | Inr created \<Rightarrow>
        Inr (Obj [(''id'', project_id p), (''name'', Str (name p)),
                  (''createdAt'', created), (''taskCount'', Num (taskCount p))]))"

definition Project_fromJSON :: "env \<Rightarrow> nat \<Rightarrow> jsval \<Rightarrow> error + (project \<times> nat)" where
  "Project_fromJSON e n data =
    (if data = Null \<or> data = Undefined then Inl TypeError
     else Project_new e n
       [(''id'', prop_of data ''id''), (''name'', prop_of data ''name''),
        (''createdAt'', prop_of data ''createdAt''),
        (''taskCount'', or_else (prop_of data ''taskCount'') (Num (Fin 0)))])"

definition Project_createDefault :: "env \<Rightarrow> nat \<Rightarrow> error + (project \<times> nat)" where
  "Project_createDefault e n =
     Project_new e (Suc n)
       [(''id'', Str ''default''), (''name'', Str ''All Tasks''),
        (''createdAt'', DateV (Instant (clock e n))), (''taskCount'', Num (Fin 0))]"


section \<open>Validation\<close>

datatype verror =
    Required string
  | RequiredItemText nat
  | TooShort string nat
  | TooLong string nat
  | PriorityNotValid
  | DateNotValid string
  | ChecklistNotAnArray
  | ItemNotAnObject nat
  | Joined "verror list"

record 'a validation =
  v_valid :: bool
  v_error :: "verror option"
  v_value :: 'a

definition sanitizeText :: "jsval \<Rightarrow> nat option \<Rightarrow> string" where
  "sanitizeText txt maxLength =
    (case txt of
       Str s \<Rightarrow>
         (let sanitized = filter (\<lambda>c. c \<noteq> CHR ''<'' \<and> c \<noteq> CHR ''>'') (trim s)
          in case maxLength of
               Some m \<Rightarrow> if m \<noteq> 0 \<and> m < length sanitized then take m sanitized else sanitized
             | None \<Rightarrow> sanitized)
     | _ \<Rightarrow> [])"

definition validateRequired :: "jsval \<Rightarrow> verror \<Rightarrow> string validation" where
  "validateRequired v missing =
    (let sanitized = sanitizeText v None
     in if sanitized = [] \<or> length sanitized = 0
        then \<lparr>v_valid = False, v_error = Some missing, v_value = sanitized\<rparr>
        else \<lparr>v_valid = True, v_error = None, v_value = sanitized\<rparr>)"

definition validateLength :: "jsval \<Rightarrow> nat \<Rightarrow> nat option \<Rightarrow> string \<Rightarrow> string validation" where
  "validateLength v minLength maxLength fieldName =
    (let sanitized = sanitizeText v None
     in if length sanitized < minLength
        then \<lparr>v_valid = False, v_error = Some (TooShort fieldName minLength), v_value = sanitized\<rparr>
        else (case maxLength of
                Some m \<Rightarrow>
                  if m \<noteq> 0 \<and> m < length sanitized
                  then \<lparr>v_valid = False, v_error = Some (TooLong fieldName m), v_value = sanitized\<rparr>
                  else \<lparr>v_valid = True, v_error = None, v_value = sanitized\<rparr>
              | None \<Rightarrow> \<lparr>v_valid = True, v_error = None, v_value = sanitized\<rparr>))"

definition validatePriority :: "jsval \<Rightarrow> string validation" where
  "validatePriority prio =
    (case prio of
       Str s \<Rightarrow>
         if \<not> truthy prio then \<lparr>v_valid = True, v_error = None, v_value = ''medium''\<rparr>
         else
           (let normalizedPriority = trim (toLowerCase s)
            in if normalizedPriority \<notin> set validPriorities
               then \<lparr>v_valid = False, v_error = Some PriorityNotValid, v_value = ''medium''\<rparr>
               else \<lparr>v_valid = True, v_error = None, v_value = normalizedPriority\<rparr>)
     | _ \<Rightarrow> \<lparr>v_valid = True, v_error = None, v_value = ''medium''\<rparr>)"

definition validateDate :: "env \<Rightarrow> jsval \<Rightarrow> string \<Rightarrow> jsval validation" where
  "validateDate e dateValue fieldName =
    (if \<not> truthy dateValue then \<lparr>v_valid = True, v_error = None, v_value = Null\<rparr>
     else
       (case (case dateValue of DateV d \<Rightarrow> Some d | Str s \<Rightarrow> Some (Date_parse e s) | _ \<Rightarrow> None) of
          None \<Rightarrow> \<lparr>v_valid = False, v_error = Some (DateNotValid fieldName), v_value = Null\<rparr>
        | Some InvalidDate \<Rightarrow> \<lparr>v_valid = False, v_error = Some (DateNotValid fieldName), v_value = Null\<rparr>
        | Some (Instant t) \<Rightarrow> \<lparr>v_valid = True, v_error = None, v_value = DateV (Instant t)\<rparr>))"

text \<open>The loop of \<open>validateChecklist\<close>: the validated items and the errors, by index.\<close>

fun validate_items :: "nat \<Rightarrow> jsval list \<Rightarrow> jsval list \<times> verror list" where
  "validate_items i [] = ([], [])"
| "validate_items i (item # items) =
     (let (vs, errs) = validate_items (Suc i) items
      in if \<not> truthy item \<or> typeof item \<noteq> ''object'' then (vs, ItemNotAnObject (i + 1) # errs)
         else
           (let textValidation = validateRequired (prop_of item ''text'') (RequiredItemText (i + 1))
            in if \<not> v_valid textValidation then (vs, (case v_error textValidation of Some x \<Rightarrow> x | None \<Rightarrow> RequiredItemText (i + 1)) # errs)
               else (Obj [(''id'', or_else (prop_of item ''id'') Null),
                          (''text'', Str (v_value textValidation)),
                          (''completed'', Bool (truthy (prop_of item ''completed'')))] # vs, errs)))"

definition validateChecklist :: "jsval \<Rightarrow> jsval validation" where
  "validateChecklist chk =
    (if \<not> truthy chk then \<lparr>v_valid = True, v_error = None, v_value = Arr []\<rparr>
     else
       (case chk of
          Arr items \<Rightarrow>
            (let (validatedItems, errs) = validate_items 0 items
             in if 0 < length errs
                then \<lparr>v_valid = False, v_error = Some (Joined errs), v_value = Arr validatedItems\<rparr>
                else \<lparr>v_valid = True, v_error = None, v_value = Arr validatedItems\<rparr>)
        | _ \<Rightarrow> \<lparr>v_valid = False, v_error = Some ChecklistNotAnArray, v_value = Arr []\<rparr>))"

text \<open>\<open>o.k = v\<close> on an object literal.\<close>

fun set_prop :: "('k \<times> 'v) list \<Rightarrow> 'k \<Rightarrow> 'v \<Rightarrow> ('k \<times> 'v) list" where
  "set_prop [] k v = [(k, v)]"
| "set_prop ((k', v') # ps) k v = (if k' = k then (k, v) # ps else (k', v') # set_prop ps k v)"

record task_validation =
  td_valid :: bool
  td_errors :: "verror list"
  td_data :: "(string \<times> jsval) list"

text \<open>
  One step of \<open>validateTaskData\<close>: a failed validation pushes its error, a successful one
  stores the validated value under the key.
\<close>

definition record_field ::
    "string \<Rightarrow> bool \<Rightarrow> verror option \<Rightarrow> jsval \<Rightarrow> verror list \<times> (string \<times> jsval) list
      \<Rightarrow> verror list \<times> (string \<times> jsval) list" where
  "record_field k ok err v acc =
    (if \<not> ok then (fst acc @ (case err of Some x \<Rightarrow> [x] | None \<Rightarrow> []), snd acc)
     else (fst acc, set_prop (snd acc) k v))"

definition validateTaskData :: "env \<Rightarrow> (string \<times> jsval) list \<Rightarrow> task_validation" where
  "validateTaskData e taskData =
    (let acc0 = ([], []);
         titleValidation = validateRequired (get_prop taskData ''title'') (Required ''Title'');
         acc1 = (if \<not> v_valid titleValidation
                 then record_field ''title'' False (v_error titleValidation) Undefined acc0
                 else (let lengthValidation = validateLength (Str (v_value titleValidation)) 1 (Some 200) ''Title''
                       in record_field ''title'' (v_valid lengthValidation) (v_error lengthValidation)
                            (Str (v_value lengthValidation)) acc0));
         acc2 = (if get_prop taskData ''description'' \<noteq> Undefined
                 then (let descValidation = validateLength (get_prop taskData ''description'') 0 (Some 1000) ''Description''
                       in record_field ''description'' (v_valid descValidation) (v_error descValidation)
                            (Str (v_value descValidation)) acc1)
                 else acc1);
         acc3 = (if get_prop taskData ''dueDate'' \<noteq> Undefined
                 then (let dateValidation = validateDate e (get_prop taskData ''dueDate'') ''Due date''
                       in record_field ''dueDate'' (v_valid dateValidation) (v_error dateValidation)
                            (v_value dateValidation) acc2)
                 else acc2);
         priorityValidation = validatePriority (get_prop taskData ''priority'');
         acc4 = (if \<not> v_valid priorityValidation
                 then (fst acc3 @ (case v_error priorityValidation of Some x \<Rightarrow> [x] | None \<Rightarrow> []), snd acc3)
                 else acc3);
         acc5 = (fst acc4, set_prop (snd acc4) ''priority'' (Str (v_value priorityValidation)));
         acc6 = (if get_prop taskData ''notes'' \<noteq> Undefined
                 then (let notesValidation = validateLength (get_prop taskData ''notes'') 0 (Some 2000) ''Notes''
                       in record_field ''notes'' (v_valid notesValidation) (v_error notesValidation)
                            (Str (v_value notesValidation)) acc5)
                 else acc5);
         acc7 = (if get_prop taskData ''checklist'' \<noteq> Undefined
                 then (let checklistValidation = validateChecklist (get_prop taskData ''checklist'')
                       in record_field ''checklist'' (v_valid checklistValidation) (v_error checklistValidation)
                            (v_value checklistValidation) acc6)
                 else acc6);
         acc8 = (if get_prop taskData ''projectId'' \<noteq> Undefined
                 then (let projectIdValidation = validateRequired (get_prop taskData ''projectId'') (Required ''Project ID'')
                       in record_field ''projectId'' (v_valid projectIdValidation) (v_error projectIdValidation)
                            (Str (v_value projectIdValidation)) acc7)
                 else acc7)
     in \<lparr>td_valid = (length (fst acc8) = 0), td_errors = fst acc8, td_data = snd acc8\<rparr>)"


section \<open>StorageService\<close>

text \<open>
  The service's flags, its in-memory fallback map (a JavaScript \<open>Map\<close>: insertion
  ordered, one binding per key) and the contents of the browser store in key order.
  Reads and removals of the browser store do not throw; writes go through \<open>setItem\<close>
  of the environment. The registered error and quota handlers are called inside
  \<open>try\<close> blocks and do not touch the service, so they do not appear here.
\<close>

record storage =
  isAvailable :: bool
  quotaExceeded :: bool
  usingFallback :: bool
  fallbackStorage :: "(string \<times> jsval) list"
  localStorage :: "(string \<times> string) list"

definition prefix :: string where
  "prefix = ''todoapp_''"

definition startsWith :: "string \<Rightarrow> string \<Rightarrow> bool" where
  "startsWith s p = (take (length p) s = p)"

fun str_includes :: "string \<Rightarrow> string \<Rightarrow> bool" where
  "str_includes [] sub = (sub = [])"
| "str_includes (c # cs) sub = (startsWith (c # cs) sub \<or> str_includes cs sub)"

definition fullKey :: "string \<Rightarrow> string" where
  "fullKey key = (if startsWith key prefix then key else prefix @ key)"

definition getItem :: "(string \<times> string) list \<Rightarrow> string \<Rightarrow> string option" where
  "getItem ls k = map_of ls k"

definition removeItem :: "(string \<times> string) list \<Rightarrow> string \<Rightarrow> (string \<times> string) list" where
  "removeItem ls k = filter (\<lambda>kv. fst kv \<noteq> k) ls"

definition checkAvailability :: "env \<Rightarrow> (string \<times> string) list \<Rightarrow> bool \<times> (string \<times> string) list" where
  "checkAvailability e ls =
    (case setItem e ls (prefix @ ''test'') ''test'' of
       Inl err \<Rightarrow> (False, ls)
     | Inr ls' \<Rightarrow> (True, removeItem ls' (prefix @ ''test'')))"

definition StorageService_new :: "env \<Rightarrow> (string \<times> string) list \<Rightarrow> storage" where
  "StorageService_new e ls =
    (let (avail, ls') = checkAvailability e ls
     in \<lparr>isAvailable = avail, quotaExceeded = False, usingFallback = False,
         fallbackStorage = [], localStorage = ls'\<rparr>)"

definition isQuotaExceeded :: "storage \<Rightarrow> bool" where
  "isQuotaExceeded s = quotaExceeded s"

definition isUsingFallback :: "storage \<Rightarrow> bool" where
  "isUsingFallback s = usingFallback s"

text \<open>The prefixed keys of the browser store, in the order \<open>localStorage.key(i)\<close> lists them.\<close>

definition prefixed_keys :: "(string \<times> string) list \<Rightarrow> string list" where
  "prefixed_keys ls = filter (\<lambda>k. truthy (Str k) \<and> startsWith k prefix) (map fst ls)"

record cleanup_entry =
  ce_key :: string
  ce_size :: nat
  isEssential :: bool

text \<open>
  The removal loop of \<open>_attemptCleanup\<close>: entries in sorted order, the count of removals
  so far, the store.
\<close>

fun remove_entries :: "nat \<Rightarrow> cleanup_entry list \<Rightarrow> nat \<Rightarrow> (string \<times> string) list \<Rightarrow> nat \<times> (string \<times> string) list" where
  "remove_entries maxToRemove [] removedCount ls = (removedCount, ls)"
| "remove_entries maxToRemove (item # items) removedCount ls =
     (if \<not> isEssential item \<and> removedCount < maxToRemove
      then remove_entries maxToRemove items (Suc removedCount) (removeItem ls (ce_key item))
      else remove_entries maxToRemove items removedCount ls)"

text \<open>
  The comparator puts non-essential entries first and orders by size, largest first;
  the sort is stable.
\<close>

definition attemptCleanup :: "storage \<Rightarrow> bool \<times> storage" where
  "attemptCleanup s =
    (if \<not> isAvailable s then (False, s)
     else
       (let keysToCheck = prefixed_keys (localStorage s);
            entries = map (\<lambda>k. \<lparr>ce_key = k,
                                  ce_size = (case getItem (localStorage s) k of Some v \<Rightarrow> length v | None \<Rightarrow> 0),
                                  isEssential = (str_includes k ''tasks'' \<or> str_includes k ''projects'')\<rparr>) keysToCheck;
            keysSorted = sort_key (\<lambda>it. (isEssential it, - int (ce_size it))) entries;
            maxToRemove = max 1 (length keysSorted div 4);
            (removedCount, ls') = remove_entries maxToRemove keysSorted 0 (localStorage s)
        in (0 < removedCount, s\<lparr>localStorage := ls'\<rparr>)))"

text \<open>\<open>_migrateToFallback\<close>: every prefixed key with a non-empty value that parses.\<close>

fun migrate_keys :: "env \<Rightarrow> (string \<times> string) list \<Rightarrow> string list \<Rightarrow> (string \<times> jsval) list \<Rightarrow> (string \<times> jsval) list" where
  "migrate_keys e ls [] fb = fb"
| "migrate_keys e ls (k # ks) fb =
     (case getItem ls k of
        None \<Rightarrow> migrate_keys e ls ks fb
      | Some v \<Rightarrow>
         if v = [] then migrate_keys e ls ks fb
         else (case JSON_parse e v of
                 None \<Rightarrow> migrate_keys e ls ks fb
               | Some data \<Rightarrow> migrate_keys e ls ks (set_prop fb k data)))"

definition migrateToFallback :: "env \<Rightarrow> storage \<Rightarrow> storage" where
  "migrateToFallback e s =
    (if \<not> isAvailable s then s
     else s\<lparr>fallbackStorage := migrate_keys e (localStorage s) (prefixed_keys (localStorage s)) (fallbackStorage s)\<rparr>)"

definition switchToFallback :: "env \<Rightarrow> storage \<Rightarrow> storage" where
  "switchToFallback e s =
    (if \<not> usingFallback s then migrateToFallback e (s\<lparr>usingFallback := True\<rparr>) else s)"

text \<open>
  \<open>save(key, data)\<close>. Storing into the fallback map does not throw, so the call always
  returns; the result is the returned boolean and the service afterwards.
\<close>

definition save :: "env \<Rightarrow> string \<Rightarrow> jsval \<Rightarrow> storage \<Rightarrow> bool \<times> storage" where
  "save e key data s =
    (let toFallback = (\<lambda>s'. (True, s'\<lparr>fallbackStorage := set_prop (fallbackStorage s') (fullKey key) data\<rparr>))
     in if isAvailable s \<and> \<not> usingFallback s then
          (case setItem e (localStorage s) (fullKey key) (JSON_stringify e data) of
             Inr ls' \<Rightarrow> (True, s\<lparr>localStorage := ls', quotaExceeded := False\<rparr>)
           | Inl QuotaExceededError \<Rightarrow>
               (let s1 = s\<lparr>quotaExceeded := True\<rparr>;
                    (cleaned, s2) = attemptCleanup s1
                in if cleaned then
                     (case setItem e (localStorage s2) (fullKey key) (JSON_stringify e data) of
                        Inr ls' \<Rightarrow> (True, s2\<lparr>localStorage := ls', quotaExceeded := False\<rparr>)
                      | Inl retryError \<Rightarrow> toFallback (switchToFallback e s2))
                   else toFallback (switchToFallback e s2))
           | Inl OtherStoreError \<Rightarrow> toFallback (switchToFallback e s))
        else toFallback s)"

text \<open>\<open>this._fallbackStorage.get(fullKey) || null\<close>\<close>

definition fallback_get :: "storage \<Rightarrow> string \<Rightarrow> jsval" where
  "fallback_get s k = or_else (get_prop (fallbackStorage s) k) Null"

definition load :: "env \<Rightarrow> string \<Rightarrow> storage \<Rightarrow> jsval" where
  "load e key s =
    (if isAvailable s \<and> \<not> usingFallback s then
       (case getItem (localStorage s) (fullKey key) of
          None \<Rightarrow> fallback_get s (fullKey key)
        | Some serializedData \<Rightarrow>
           (case JSON_parse e serializedData of
              Some data \<Rightarrow> data
            | None \<Rightarrow> fallback_get s (fullKey key)))
     else fallback_get s (fullKey key))"

text \<open>\<open>tasks.map(task => task.toJSON())\<close>: the first throw ends the map.\<close>

fun map_result :: "('a \<Rightarrow> error + 'b) \<Rightarrow> 'a list \<Rightarrow> error + 'b list" where
  "map_result f [] = Inr []"
| "map_result f (x # xs) =
     (case f x of
        Inl err \<Rightarrow> Inl err
      | Inr y \<Rightarrow> (case map_result f xs of Inl err \<Rightarrow> Inl err | Inr ys \<Rightarrow> Inr (y # ys)))"

definition saveTasks :: "env \<Rightarrow> task list \<Rightarrow> storage \<Rightarrow> (error + bool) \<times> storage" where
  "saveTasks e ts s =
    (case map_result (Task_toJSON e) ts of
       Inl err \<Rightarrow> (Inl err, s)
     | Inr serializedTasks \<Rightarrow>
        (let (ok, s') = save e (prefix @ ''tasks'') (Arr serializedTasks) s in (Inr ok, s')))"

text \<open>
  The loop of \<open>loadTasks\<close>: a record whose construction throws is skipped with a
  warning, the others are collected in order.
\<close>

fun load_each :: "(nat \<Rightarrow> jsval \<Rightarrow> error + ('a \<times> nat)) \<Rightarrow> nat \<Rightarrow> jsval list \<Rightarrow> 'a list \<times> nat" where
  "load_each mk n [] = ([], n)"
| "load_each mk n (d # ds) =
     (case mk n d of
        Inl err \<Rightarrow> load_each mk n ds
      | Inr (x, n1) \<Rightarrow> (let (xs, n2) = load_each mk n1 ds in (x # xs, n2)))"

definition loadTasks :: "env \<Rightarrow> nat \<Rightarrow> storage \<Rightarrow> task list \<times> nat" where
  "loadTasks e n s =
    (let tasksData = load e (prefix @ ''tasks'') s
     in if \<not> truthy tasksData then ([], n)
        else (case tasksData of
                Arr records \<Rightarrow> load_each (Task_fromJSON e) n records
              | _ \<Rightarrow> ([], n)))"

definition saveProjects :: "env \<Rightarrow> project list \<Rightarrow> storage \<Rightarrow> (error + bool) \<times> storage" where
  "saveProjects e ps s =
    (case map_result (Project_toJSON e) ps of
       Inl err \<Rightarrow> (Inl err, s)
     | Inr serializedProjects \<Rightarrow>
        (let (ok, s') = save e (prefix @ ''projects'') (Arr serializedProjects) s in (Inr ok, s')))"

definition loadProjects :: "env \<Rightarrow> nat \<Rightarrow> storage \<Rightarrow> project list \<times> nat" where
  "loadProjects e n s =
    (let projectsData = load e (prefix @ ''projects'') s
     in if \<not> truthy projectsData then ([], n)
        else (case projectsData of
                Arr records \<Rightarrow> load_each (Project_fromJSON e) n records
              | _ \<Rightarrow> ([], n)))"

section \<open>TaskService\<close>

record task_service =
  tasks :: "task list"
  ts_initialized :: bool

definition TaskService_initialize :: "env \<Rightarrow> storage \<Rightarrow> task_service \<Rightarrow> nat \<Rightarrow> task_service \<times> nat" where
  "TaskService_initialize e st svc n =
    (if ts_initialized svc then (svc, n)
     else (let (ts, n') = loadTasks e n st in (svc\<lparr>tasks := ts, ts_initialized := True\<rparr>, n')))"

text \<open>
  \<open>getTasksByProject(projectId = 'default')\<close>: the returned array, the service after the
  lazy initialisation, the tick counter.
\<close>

definition getTasksByProject :: "env \<Rightarrow> storage \<Rightarrow> jsval \<Rightarrow> task_service \<Rightarrow> nat \<Rightarrow> task list \<times> task_service \<times> nat" where
  "getTasksByProject e st pid svc n =
    (let projectId' = (if pid = Undefined then Str ''default'' else pid);
         (svc', n') = TaskService_initialize e st svc n
     in if strict_eq projectId' (Str ''default'') then (tasks svc', svc', n')
        else (filter (\<lambda>t. strict_eq (projectId t) projectId') (tasks svc'), svc', n'))"

section \<open>ProjectService\<close>

record project_service =
  projects :: "project list"
  ps_initialized :: bool

definition ProjectService_saveProjects :: "env \<Rightarrow> project_service \<Rightarrow> storage \<Rightarrow> (error + unit) \<times> storage" where
  "ProjectService_saveProjects e svc st =
    (case saveProjects e (projects svc) st of
       (Inl err, st') \<Rightarrow> (Inl (FailedTo ''save projects to storage'' err), st')
     | (Inr ok, st') \<Rightarrow> (Inr (), st'))"

definition createDefaultProject ::
    "env \<Rightarrow> project_service \<Rightarrow> storage \<Rightarrow> nat \<Rightarrow> (error + unit) \<times> project_service \<times> storage \<times> nat" where
  "createDefaultProject e svc st n =
    (case Project_createDefault e n of
       Inl err \<Rightarrow> (Inl (FailedTo ''create default project'' err), svc, st, Suc n)
     | Inr (defaultProject, n') \<Rightarrow>
        (let svc' = svc\<lparr>projects := defaultProject # projects svc\<rparr>
         in case ProjectService_saveProjects e svc' st of
              (Inl err, st') \<Rightarrow> (Inl (FailedTo ''create default project'' err), svc', st', n')
            | (Inr u, st') \<Rightarrow> (Inr (), svc', st', n')))"

definition ensureDefaultProject ::
    "env \<Rightarrow> project_service \<Rightarrow> storage \<Rightarrow> nat \<Rightarrow> (error + unit) \<times> project_service \<times> storage \<times> nat" where
  "ensureDefaultProject e svc st n =
    (case find (\<lambda>p. strict_eq (project_id p) (Str ''default'')) (projects svc) of
       Some defaultProject \<Rightarrow> (Inr (), svc, st, n)
     | None \<Rightarrow> createDefaultProject e svc st n)"

definition ProjectService_initialize ::
    "env \<Rightarrow> project_service \<Rightarrow> storage \<Rightarrow> nat \<Rightarrow> project_service \<times> storage \<times> nat" where
  "ProjectService_initialize e svc st n =
    (if ps_initialized svc then (svc, st, n)
     else
       (let (ps, n1) = loadProjects e n st
        in case ensureDefaultProject e (svc\<lparr>projects := ps\<rparr>) st n1 of
             (Inr u, svc1, st1, n2) \<Rightarrow> (svc1\<lparr>ps_initialized := True\<rparr>, st1, n2)
           | (Inl err, svc1, st1, n2) \<Rightarrow>
               (case ensureDefaultProject e (svc1\<lparr>projects := []\<rparr>) st1 n2 of
                  (r, svc2, st2, n3) \<Rightarrow> (svc2\<lparr>ps_initialized := True\<rparr>, st2, n3))))"

definition deleteProject ::
    "env \<Rightarrow> jsval \<Rightarrow> project_service \<Rightarrow> storage \<Rightarrow> nat
      \<Rightarrow> (error + project) \<times> project_service \<times> storage \<times> nat" where
  "deleteProject e pid svc st n =
    (let (svc1, st1, n1) = ProjectService_initialize e svc st n
     in if \<not> truthy pid then (Inl ProjectIdRequired, svc1, st1, n1)
        else if strict_eq pid (Str ''default'') then (Inl CannotDeleteDefault, svc1, st1, n1)
        else
          (case find_index (\<lambda>p. strict_eq (project_id p) pid) (projects svc1) of
             None \<Rightarrow> (Inl ProjectNotFound, svc1, st1, n1)
           | Some i \<Rightarrow>
              (let deletedProject = projects svc1 ! i;
                   svc2 = svc1\<lparr>projects := take i (projects svc1) @ drop (Suc i) (projects svc1)\<rparr>
               in case ProjectService_saveProjects e svc2 st1 of
                    (Inl err, st2) \<Rightarrow> (Inl (FailedTo ''delete project'' err), svc2, st2, n1)
                  | (Inr u, st2) \<Rightarrow> (Inr deletedProject, svc2, st2, n1))))"

section \<open>Predicates and a sample environment for the properties\<close>

text \<open>A task count in the sense of the data model: a non-negative integer.\<close>

definition is_count :: "jsnum \<Rightarrow> bool" where
  "is_count x = (case x of Fin r \<Rightarrow> 0 \<le> r \<and> r = of_int \<lfloor>r\<rfloor> | _ \<Rightarrow> False)"

text \<open>
  A concrete environment on which the model runs: identifiers \<open>uuid-\<close>, \<open>uuid-x\<close>, ...,
  a clock that starts at 10, dates printed as \<open>T\<close> followed by as many zeros as the
  instant has milliseconds and parsed back from that form, a store whose every write
  throws the quota error, and a JSON parser that rejects everything.
\<close>

definition sample_env :: env where
  "sample_env =
    \<lparr>uuidv4 = (\<lambda>n. ''uuid-'' @ replicate n (CHR ''x'')),
     clock = (\<lambda>n. 10 + int n),
     Date_parse = (\<lambda>s. case s of [] \<Rightarrow> InvalidDate
                        | c # cs \<Rightarrow> if c = CHR ''T'' then Instant (int (length cs)) else InvalidDate),
     Date_of = (\<lambda>v. InvalidDate),
     toISOString = (\<lambda>t. CHR ''T'' # replicate (nat t) (CHR ''0'')),
     setItem = (\<lambda>ls k v. Inl QuotaExceededError),
     JSON_stringify = (\<lambda>v. ''json''),
     JSON_parse = (\<lambda>s. None)\<rparr>"

text \<open>Two tasks of different projects, an available store with no contents, and a project.\<close>

definition sample_task_a :: task where
  "sample_task_a =
    \<lparr>task_id = Str ''t1'', title = ''Write report'', description = Str [], dueDate = None,
     priority = ''medium'', task_notes = Str [], checklist = [], completed = False,
     projectId = Str ''default'', createdAt = Instant 1, updatedAt = Instant 1\<rparr>"

definition sample_task_b :: task where
  "sample_task_b =
    \<lparr>task_id = Str ''t2'', title = ''Ship release'', description = Str [], dueDate = None,
     priority = ''high'', task_notes = Str [], checklist = [], completed = True,
     projectId = Str ''p1'', createdAt = Instant 2, updatedAt = Instant 3\<rparr>"

definition sample_storage :: storage where
  "sample_storage =
    \<lparr>isAvailable = True, quotaExceeded = False, usingFallback = False,
     fallbackStorage = [], localStorage = []\<rparr>"

definition sample_project :: project where
  "sample_project =
    \<lparr>project_id = Str ''p1'', name = ''A'', project_createdAt = Instant 5, taskCount = Fin 0\<rparr>"


text \<open>
  A stored task collection of three records, the second without a title, with the
  JSON text that stands for it and a parser that reads that text.
\<close>

definition sample_records :: "jsval list" where
  "sample_records =
    [Obj [(''id'', Str ''t1''), (''title'', Str ''Write report''), (''priority'', Str ''medium''),
          (''createdAt'', Str ''T0''), (''updatedAt'', Str ''T0'')],
     Obj [(''id'', Str ''t-bad''), (''priority'', Str ''low'')],
     Obj [(''id'', Str ''t2''), (''title'', Str ''Ship release''), (''priority'', Str ''high''),
          (''projectId'', Str ''p1''), (''createdAt'', Str ''T00''), (''updatedAt'', Str ''T000'')]]"

definition stored_env :: env where
  "stored_env =
     sample_env\<lparr>JSON_parse := (\<lambda>s. if s = ''[t1,bad,t2]'' then Some (Arr sample_records) else None)\<rparr>"

definition stored_storage :: storage where
  "stored_storage = sample_storage\<lparr>localStorage := [(''todoapp_tasks'', ''[t1,bad,t2]'')]\<rparr>"

text \<open>
  The task that \<open>new Task({title: 'a', checklist: [{text: ' ', completed: false}]})\<close>
  builds in the sample environment, and its JSON record.
\<close>

definition blank_item_task :: task where
  "blank_item_task =
    \<lparr>task_id = Str ''uuid-'', title = ''a'', description = Str [], dueDate = None,
     priority = ''medium'', task_notes = Str [],
     checklist = [\<lparr>item_id = Str ''uuid-x'', item_text = [], item_completed = False\<rparr>],
     completed = False, projectId = Str ''default'',
     createdAt = Instant 12, updatedAt = Instant 13\<rparr>"

definition blank_item_json :: jsval where
  "blank_item_json =
    Obj [(''id'', Str ''uuid-''), (''title'', Str ''a''), (''description'', Str []),
         (''dueDate'', Null), (''priority'', Str ''medium''), (''notes'', Str []),
         (''checklist'', Arr [Obj [(''id'', Str ''uuid-x''), (''text'', Str []), (''completed'', Bool False)]]),
         (''completed'', Bool False), (''projectId'', Str ''default''),
         (''createdAt'', Str ''T000000000000''), (''updatedAt'', Str ''T0000000000000'')]"

text \<open>The task that \<open>new Task({title: 'a', dueDate: 'soon'})\<close> builds there.\<close>

definition bad_date_task :: task where
  "bad_date_task =
    \<lparr>task_id = Str ''uuid-'', title = ''a'', description = Str [], dueDate = Some InvalidDate,
     priority = ''medium'', task_notes = Str [], checklist = [],
     completed = False, projectId = Str ''default'',
     createdAt = Instant 11, updatedAt = Instant 12\<rparr>"

text \<open>
  The percentage in the words of the specification: \<open>100 * completed / total\<close> rounded to
  the nearest integer (a tie going up), in exact arithmetic. \<open>halfway\<close> says that
  \<open>100 * completed / total\<close> lies exactly between two integers.
\<close>

definition spec_percentage :: "nat \<Rightarrow> nat \<Rightarrow> int" where
  "spec_percentage c n = \<lfloor>(100 * of_nat c / of_nat n :: rat) + 1 / 2\<rfloor>"

definition halfway :: "nat \<Rightarrow> nat \<Rightarrow> bool" where
  "halfway c n = ((200 * c) mod (2 * n) = n)"

text \<open>A task with \<open>done\<close> completed checklist items followed by \<open>todo\<close> open ones.\<close>

definition checklist_task :: "nat \<Rightarrow> nat \<Rightarrow> task" where
  "checklist_task done todo =
     sample_task_a\<lparr>checklist :=
       replicate done \<lparr>item_id = Str ''i'', item_text = ''x'', item_completed = True\<rparr>
       @ replicate todo \<lparr>item_id = Str ''i'', item_text = ''x'', item_completed = False\<rparr>\<rparr>"

text \<open>
  What the constructor guarantees of an instance (\<open>constructed\<close>), and what it does not:
  that every date of the instance is a valid instant that the platform prints and reads
  back, and that no checklist item has an empty text (\<open>serialisable\<close>).
\<close>

definition prints_and_parses :: "env \<Rightarrow> jsdate \<Rightarrow> bool" where
  "prints_and_parses e d =
    (case d of Instant t \<Rightarrow> toISOString e t \<noteq> [] \<and> Date_parse e (toISOString e t) = Instant t
     | InvalidDate \<Rightarrow> False)"

definition serialisable :: "env \<Rightarrow> task \<Rightarrow> bool" where
  "serialisable e t =
    ((case dueDate t of None \<Rightarrow> True | Some d \<Rightarrow> prints_and_parses e d)
     \<and> prints_and_parses e (createdAt t) \<and> prints_and_parses e (updatedAt t)
     \<and> list_all (\<lambda>it. item_text it \<noteq> []) (checklist t))"

definition constructed :: "task \<Rightarrow> bool" where
  "constructed t =
    (truthy (task_id t) \<and> title t \<noteq> [] \<and> trim (title t) = title t
     \<and> or_else (description t) (Str []) = description t
     \<and> priority t \<in> set validPriorities
     \<and> or_else (task_notes t) (Str []) = task_notes t
     \<and> truthy (projectId t)
     \<and> list_all (\<lambda>it. truthy (item_id it) \<and> trim (item_text it) = item_text it) (checklist t))"

section \<open>Shared facts\<close>

lemma strict_eq_Str [simp]:
  "strict_eq (Str a) b = (b = Str a)"
  "strict_eq b (Str a) = (b = Str a)"
  by (auto simp: strict_eq_def)

lemma get_set_prop_same [simp]: "get_prop (set_prop ps k v) k = v"
  by (induction ps) auto

lemma get_set_prop_other [simp]: "k' \<noteq> k \<Longrightarrow> get_prop (set_prop ps k' v) k = get_prop ps k"
  by (induction ps) auto

section \<open>Double-precision arithmetic: the rounding error, and integers\<close>

lemma pow2_powi: "pow2 k = 2 powi k"
proof (cases "0 \<le> k")
  case True
  then show ?thesis
    by (simp add: pow2_def power_int_def)
next
  case False
  have "(1::rat) / 2 ^ nat (- k) = inverse 2 ^ nat (- k)"
    by (simp add: power_one_over inverse_eq_divide)
  with False show ?thesis
    by (simp only: pow2_def power_int_def if_False)
qed

lemma pow2_pos [simp]: "0 < pow2 k"
  by (simp add: pow2_powi)

lemma pow2_add: "pow2 (a + b) = pow2 a * pow2 b"
  by (simp add: pow2_powi power_int_add)

lemma pow2_nat: "0 \<le> k \<Longrightarrow> pow2 k = 2 ^ nat k"
  by (simp add: pow2_def)

lemma pow2_diff: "pow2 (a - b) = pow2 a / pow2 b"
  by (simp add: pow2_powi power_int_diff)

lemma exponent_le:
  assumes "0 < x"
  shows "pow2 (exponent x) \<le> x"
proof -
  obtain a b where q: "quotient_of x = (a, b)"
    by (cases "quotient_of x")
  then have b: "0 < b" and x: "x = of_int a / of_int b"
    by (auto dest: quotient_of_denom_pos quotient_of_div)
  with assms have a: "0 < a"
    by (simp add: zero_less_divide_iff)
  let ?d = "bitlen a - bitlen b"
  have la: "(2::int) ^ nat (bitlen a - 1) \<le> a" and lb: "b < 2 ^ nat (bitlen b)"
    using bitlen_bounds [OF a] bitlen_bounds [OF b] by auto
  have la1: "1 \<le> bitlen a" and lb1: "1 \<le> bitlen b"
    using a b by (auto simp: bitlen_alt_def)
  have "pow2 (?d - 1) = pow2 (bitlen a - 1) / pow2 (bitlen b)"
    using pow2_diff [of "bitlen a - 1" "bitlen b"] by (simp add: algebra_simps)
  also have "\<dots> = 2 ^ nat (bitlen a - 1) / 2 ^ nat (bitlen b)"
    using la1 lb1 by (simp add: pow2_nat)
  also have "\<dots> \<le> of_int a / of_int b"
  proof -
    have "(2::rat) ^ nat (bitlen a - 1) \<le> of_int a"
      using la by (metis of_int_le_iff of_int_numeral of_int_power)
    moreover have "(of_int b :: rat) \<le> 2 ^ nat (bitlen b)"
      using lb by (metis less_imp_le of_int_le_iff of_int_numeral of_int_power)
    moreover have "(0::rat) < of_int b" using b by simp
    moreover have "(0::rat) \<le> of_int a" using a by simp
    ultimately show ?thesis
      by (intro frac_le) auto
  qed
  finally have low: "pow2 (?d - 1) \<le> x"
    using x by simp
  show ?thesis
    using q low by (simp add: exponent_def Let_def)
qed

lemma round_even_err: "\<bar>of_int (round_even y) - y\<bar> \<le> 1 / 2"
proof -
  have "of_int \<lfloor>y\<rfloor> \<le> y" "y < of_int \<lfloor>y\<rfloor> + 1"
    by linarith+
  then show ?thesis
    unfolding round_even_def Let_def
    by (auto simp: abs_le_iff)
qed

lemma round_pos_err:
  assumes "0 < x"
  shows "\<bar>round_pos x - x\<bar> \<le> x / 2 ^ 53"
proof -
  let ?e = "exponent x"
  let ?y = "x * pow2 (52 - ?e)"
  have inv: "pow2 (52 - ?e) * pow2 (?e - 52) = 1"
    using pow2_add [of "52 - ?e" "?e - 52"] by (simp add: pow2_def)
  have "round_pos x - x = (of_int (round_even ?y) - ?y) * pow2 (?e - 52)"
    using inv by (simp add: round_pos_def Let_def algebra_simps)
  then have "\<bar>round_pos x - x\<bar> = \<bar>of_int (round_even ?y) - ?y\<bar> * pow2 (?e - 52)"
    by (simp add: abs_mult abs_of_pos)
  also have "\<dots> \<le> (1 / 2) * pow2 (?e - 52)"
    by (intro mult_right_mono round_even_err) (simp add: less_imp_le)
  also have "\<dots> = pow2 ?e / 2 ^ 53"
    using pow2_diff [of ?e 52] by (simp add: pow2_nat)
  also have "\<dots> \<le> x / 2 ^ 53"
    using exponent_le [OF assms] by (simp add: divide_right_mono)
  finally show ?thesis .
qed

lemma to_double_err:
  assumes "0 \<le> x"
  shows "\<bar>to_double x - x\<bar> \<le> x / 2 ^ 53"
  using assms round_pos_err [of x] by (cases "x = 0") (auto simp: to_double_def)


lemma to_double_nonneg:
  assumes "0 \<le> x"
  shows "0 \<le> to_double x"
proof -
  have "x / 2 ^ 53 \<le> x"
    using assms by (simp add: divide_le_eq)
  with to_double_err [OF assms] have "\<bar>to_double x - x\<bar> \<le> x"
    by linarith
  then show ?thesis
    by linarith
qed

lemma round_even_of_int: "round_even (of_int j) = j"
  by (simp add: round_even_def)

lemma round_even_nonneg: "0 \<le> y \<Longrightarrow> 0 \<le> round_even y"
  by (auto simp: round_even_def Let_def)

lemma exponent_le_52_exact:
  assumes "0 < k" and "exponent (of_int k) \<le> 52"
  shows "round_pos (of_int k) = of_int k"
proof -
  let ?e = "exponent (of_int k)"
  have pw: "pow2 (52 - ?e) = 2 ^ nat (52 - ?e)"
    using assms(2) by (simp add: pow2_nat)
  have y: "of_int k * pow2 (52 - ?e) = of_int (k * 2 ^ nat (52 - ?e))"
    unfolding pw by simp
  have inv: "pow2 (52 - ?e) * pow2 (?e - 52) = 1"
    using pow2_add [of "52 - ?e" "?e - 52"] by (simp add: pow2_def)
  have "round_pos (of_int k) = of_int (k * 2 ^ nat (52 - ?e)) * pow2 (?e - 52)"
    unfolding round_pos_def Let_def y round_even_of_int ..
  also have "\<dots> = (of_int k * pow2 (52 - ?e)) * pow2 (?e - 52)"
    unfolding y ..
  also have "\<dots> = of_int k * (pow2 (52 - ?e) * pow2 (?e - 52))"
    by (simp only: mult.assoc)
  finally show ?thesis
    unfolding inv by simp
qed

lemma exponent_gt_52_int:
  assumes "0 < x" and "52 < exponent x"
  shows "\<exists>m::int. 0 \<le> m \<and> round_pos x = of_int m"
proof -
  let ?e = "exponent x"
  let ?m = "round_even (x * pow2 (52 - ?e)) * 2 ^ nat (?e - 52)"
  have "0 \<le> x * pow2 (52 - ?e)"
    using assms(1) by (simp add: less_imp_le)
  then have "0 \<le> round_even (x * pow2 (52 - ?e))"
    by (rule round_even_nonneg)
  then have "0 \<le> ?m"
    by simp
  moreover have "round_pos x = of_int ?m"
    using assms(2) by (simp add: round_pos_def Let_def pow2_nat)
  ultimately show ?thesis
    by blast
qed

lemma to_double_int:
  assumes "0 \<le> k"
  shows "\<exists>m::int. 0 \<le> m \<and> to_double (of_int k) = of_int m"
proof (cases "k = 0")
  case True
  then show ?thesis
    by (auto simp: to_double_def intro: exI [of _ 0])
next
  case False
  with assms have k: "0 < k" by simp
  then have td: "to_double (of_int k) = round_pos (of_int k)"
    by (simp add: to_double_def)
  show ?thesis
  proof (cases "exponent (of_int k) \<le> 52")
    case True
    with k td show ?thesis
      using exponent_le_52_exact [OF k True] assms by auto
  next
    case False
    then have "52 < exponent (of_int k)" by simp
    with k td show ?thesis
      using exponent_gt_52_int [of "of_int k"] by simp
  qed
qed

lemma pow2_mono: "a \<le> b \<Longrightarrow> pow2 a \<le> pow2 b"
  by (simp add: pow2_powi power_int_increasing)

lemma to_double_exact:
  assumes "0 \<le> k" and "k \<le> 2 ^ 53"
  shows "to_double (of_int k) = of_int k"
proof (cases "k = 0")
  case True
  then show ?thesis by (simp add: to_double_def)
next
  case False
  with assms have k: "0 < k" by simp
  then have td: "to_double (of_int k) = round_pos (of_int k)"
    by (simp add: to_double_def)
  let ?e = "exponent (of_int k)"
  have le: "pow2 ?e \<le> of_int k"
    using k by (intro exponent_le) simp
  have e53: "?e \<le> 53"
  proof (rule ccontr)
    assume "\<not> ?e \<le> 53"
    then have "pow2 54 \<le> pow2 ?e"
      by (intro pow2_mono) simp
    with le have "(2::rat) ^ 54 \<le> of_int k"
      by (simp add: pow2_def)
    moreover have "(of_int k :: rat) \<le> 2 ^ 53"
      using assms(2) by (metis of_int_le_iff of_int_numeral of_int_power)
    ultimately show False by simp
  qed
  show ?thesis
  proof (cases "?e \<le> 52")
    case True
    with k td show ?thesis
      by (simp add: exponent_le_52_exact)
  next
    case False
    with e53 have e: "?e = 53" by simp
    with le have "(2::rat) ^ 53 \<le> of_int k"
      by (simp add: pow2_def)
    moreover have "(of_int k :: rat) \<le> 2 ^ 53"
      using assms(2) by (metis of_int_le_iff of_int_numeral of_int_power)
    ultimately have kk: "(of_int k :: rat) = 2 ^ 53" by simp
    have "round_pos (of_int k) = of_int (round_even (of_int k * pow2 (- 1))) * pow2 1"
      unfolding round_pos_def Let_def e by simp
    then have "round_pos (of_int k) = of_int (round_even (2 ^ 53 * pow2 (- 1))) * pow2 1"
      unfolding kk .
    also have "(2::rat) ^ 53 * pow2 (- 1) = of_int (2 ^ 52)"
      by (simp add: pow2_def)
    also have "of_int (round_even (of_int (2 ^ 52))) * pow2 1 = (2::rat) ^ 53"
      unfolding round_even_of_int by (simp add: pow2_def)
    finally show ?thesis
      using td kk by simp
  qed
qed

section \<open>Project: the task count\<close>

lemma is_count_cases: "is_count c \<longleftrightarrow> (\<exists>k::int. 0 \<le> k \<and> c = Fin (of_int k))"
proof
  assume "is_count c"
  then obtain r where "c = Fin r" "0 \<le> r" "r = of_int \<lfloor>r\<rfloor>"
    by (cases c) (auto simp: is_count_def)
  then show "\<exists>k::int. 0 \<le> k \<and> c = Fin (of_int k)"
    by (intro exI [of _ "\<lfloor>r\<rfloor>"]) auto
next
  assume "\<exists>k::int. 0 \<le> k \<and> c = Fin (of_int k)"
  then show "is_count c"
    by (auto simp: is_count_def)
qed

lemma is_count_inc: "is_count c \<Longrightarrow> is_count (num_inc c)"
proof -
  assume "is_count c"
  then obtain k :: int where k: "0 \<le> k" "c = Fin (of_int k)"
    by (auto simp: is_count_cases)
  have "of_int k + (1::rat) = of_int (k + 1)"
    by simp
  moreover obtain m :: int where "0 \<le> m" "to_double (of_int (k + 1)) = of_int m"
    using to_double_int [of "k + 1"] k(1) by auto
  ultimately show ?thesis
    using k(2) by (auto simp: is_count_cases)
qed

lemma is_count_dec:
  assumes "is_count c" and "num_gt0 c"
  shows "is_count (num_dec c)"
proof -
  from assms(1) obtain k :: int where k: "0 \<le> k" "c = Fin (of_int k)"
    by (auto simp: is_count_cases)
  with assms(2) have k1: "0 \<le> k - 1"
    by simp
  have "of_int k - (1::rat) = of_int (k - 1)"
    by simp
  moreover obtain m :: int where "0 \<le> m" "to_double (of_int (k - 1)) = of_int m"
    using to_double_int [OF k1] by auto
  ultimately show ?thesis
    using k(2) by (auto simp: is_count_cases)
qed

lemma num_inc_exact:
  assumes "is_count (Fin r)" and "r < 2 ^ 53"
  shows "num_inc (Fin r) = Fin (r + 1)"
proof -
  from assms(1) obtain k :: int where k: "0 \<le> k" "r = of_int k"
    by (auto simp: is_count_cases)
  with assms(2) have "(of_int k :: rat) < of_int (2 ^ 53)"
    by simp
  then have "k < 2 ^ 53"
    by (simp only: of_int_less_iff)
  then have "to_double (of_int (k + 1)) = of_int (k + 1)"
    using k(1) by (intro to_double_exact) auto
  then show ?thesis
    using k(2) by simp
qed

lemma num_dec_exact:
  assumes "is_count (Fin r)" and "0 < r" and "r \<le> 2 ^ 53"
  shows "num_dec (Fin r) = Fin (r - 1)"
proof -
  from assms(1) obtain k :: int where k: "0 \<le> k" "r = of_int k"
    by (auto simp: is_count_cases)
  with assms(3) have "(of_int k :: rat) \<le> of_int (2 ^ 53)"
    by simp
  then have "k \<le> 2 ^ 53"
    by (simp only: of_int_le_iff)
  moreover from k assms(2) have "0 \<le> k - 1"
    by simp
  ultimately have "to_double (of_int (k - 1)) = of_int (k - 1)"
    by (intro to_double_exact) auto
  then show ?thesis
    using k(2) by simp
qed

lemma Project_new_negative:
  assumes "param arg ''taskCount'' (Num (Fin 0)) = Num c" and "num_lt0 c"
  shows "isl (Project_new e n arg)"
  using assms unfolding Project_new_def Let_def
  by (auto split: jsval.splits if_splits prod.splits)

lemma round_pos_pos:
  assumes "0 < x"
  shows "0 < round_pos x"
proof -
  have "x / 2 ^ 53 < x"
    using assms by (simp add: divide_less_eq)
  with round_pos_err [OF assms] show ?thesis
    by linarith
qed

text \<open>
  What holds of the operations on an instance whose count is a non-negative integer:
  \<open>incrementTaskCount\<close> keeps the count a non-negative integer and adds one (exactly,
  below \<open>2^53\<close>), \<open>decrementTaskCount\<close> keeps it a non-negative integer and leaves a
  count of 0 at 0, \<open>setTaskCount\<close> rejects a negative number and leaves the instance as
  it was, and the constructor rejects a negative number.
\<close>

lemma Project_integer_count_operations:
  assumes "is_count (taskCount p)"
  shows "is_count (taskCount (incrementTaskCount p))
       \<and> (\<forall>r. taskCount p = Fin r \<and> r < 2 ^ 53 \<longrightarrow> taskCount (incrementTaskCount p) = Fin (r + 1))
       \<and> is_count (taskCount (decrementTaskCount p))
       \<and> (taskCount p = Fin 0 \<longrightarrow> decrementTaskCount p = p)
       \<and> (num_lt0 c \<longrightarrow> setTaskCount (Num c) p = (Inl TaskCountInvalid, p))
       \<and> (param arg ''taskCount'' (Num (Fin 0)) = Num c \<and> num_lt0 c \<longrightarrow> isl (Project_new e n arg))"
proof -
  have inc: "is_count (taskCount (incrementTaskCount p))"
    using assms by (simp add: incrementTaskCount_def is_count_inc)
  have inc1: "\<forall>r. taskCount p = Fin r \<and> r < 2 ^ 53 \<longrightarrow> taskCount (incrementTaskCount p) = Fin (r + 1)"
    using assms num_inc_exact by (auto simp: incrementTaskCount_def)
  have dec: "is_count (taskCount (decrementTaskCount p))"
    using assms by (simp add: decrementTaskCount_def is_count_dec)
  have dec0: "taskCount p = Fin 0 \<longrightarrow> decrementTaskCount p = p"
    by (simp add: decrementTaskCount_def)
  have set_neg: "num_lt0 c \<longrightarrow> setTaskCount (Num c) p = (Inl TaskCountInvalid, p)"
    by (simp add: setTaskCount_def)
  have new_neg: "param arg ''taskCount'' (Num (Fin 0)) = Num c \<and> num_lt0 c \<longrightarrow> isl (Project_new e n arg)"
    using Project_new_negative by blast
  from inc inc1 dec dec0 set_neg new_neg show ?thesis
    by blast
qed

text \<open>
  C9 fails on the code. The claim is that every Project operation preserves
  \<open>taskCount >= 0\<close>. The constructor checks only that the count is a number and is not
  below zero, so it accepts a count strictly between 0 and 1; the guard
  \<open>taskCount > 0\<close> of \<open>decrementTaskCount\<close> lets that count through, and the decrement
  leaves a count below zero: for every valid name and every such count the constructor
  builds an instance with that count, which satisfies \<open>taskCount >= 0\<close>, and
  \<open>decrementTaskCount\<close> takes it to a count that is below zero.
\<close>

theorem decrementTaskCount_below_zero:
  assumes "trim s \<noteq> []" and "0 < r" and "r < 1"
  shows "\<exists>p n'. Project_new e n [(''name'', Str s), (''taskCount'', Num (Fin r))] = Inr (p, n')
           \<and> taskCount p = Fin r
           \<and> num_ge0 (taskCount p)
           \<and> num_lt0 (taskCount (decrementTaskCount p))
           \<and> \<not> num_ge0 (taskCount (decrementTaskCount p))"
proof -
  from assms(1) have s: "s \<noteq> []"
    by (auto simp: trim_def)
  let ?p = "\<lparr>project_id = Str (uuidv4 e n), name = trim s,
             project_createdAt = Instant (clock e (Suc n)), taskCount = Fin r\<rparr>"
  have new: "Project_new e n [(''name'', Str s), (''taskCount'', Num (Fin r))] = Inr (?p, Suc (Suc n))"
    using assms s by (simp add: Project_new_def param_def)
  have "0 < round_pos (1 - r)"
    using assms(3) by (intro round_pos_pos) simp
  then have neg: "to_double (r - 1) < 0"
    using assms(3) by (simp add: to_double_def)
  have dec: "taskCount (decrementTaskCount ?p) = Fin (to_double (r - 1))"
    using assms(2) by (simp add: decrementTaskCount_def)
  have "taskCount ?p = Fin r \<and> num_ge0 (taskCount ?p)
      \<and> num_lt0 (taskCount (decrementTaskCount ?p))
      \<and> \<not> num_ge0 (taskCount (decrementTaskCount ?p))"
    using assms(2) neg unfolding dec by simp
  with new show ?thesis
    by blast
qed

theorem decrementTaskCount_below_zero_witness:
  "Project_new sample_env 0 [(''name'', Str ''a''), (''taskCount'', Num (Fin (1 / 2)))]
      = Inr (\<lparr>project_id = Str ''uuid-'', name = ''a'', project_createdAt = Instant 11,
               taskCount = Fin (1 / 2)\<rparr>, 2)
    \<and> num_ge0 (Fin (1 / 2))
    \<and> taskCount (decrementTaskCount \<lparr>project_id = Str ''uuid-'', name = ''a'',
         project_createdAt = Instant 11, taskCount = Fin (1 / 2)\<rparr>) = Fin (- (1 / 2))
    \<and> num_lt0 (Fin (- (1 / 2)))"
proof -
  have t: "trim ''a'' \<noteq> []"
    by (simp add: trim_def is_space_def)
  have r: "(0::rat) < 1 / 2" "(1::rat) / 2 < 1"
    by simp_all
  have ev: "Project_new sample_env 0 [(''name'', Str ''a''), (''taskCount'', Num (Fin (1 / 2)))]
      = Inr (\<lparr>project_id = Str ''uuid-'', name = ''a'', project_createdAt = Instant 11,
               taskCount = Fin (1 / 2)\<rparr>, 2)
    \<and> taskCount (decrementTaskCount \<lparr>project_id = Str ''uuid-'', name = ''a'',
         project_createdAt = Instant 11, taskCount = Fin (1 / 2)\<rparr>) = Fin (- (1 / 2))"
    by code_simp
  from decrementTaskCount_below_zero [OF t r, of sample_env 0] ev
  have "num_lt0 (Fin (- (1 / 2)))"
    by auto
  with ev show ?thesis
    by simp
qed

section \<open>TaskService: tasks by project\<close>

text \<open>
  C4: \<open>getTasksByProject('default')\<close> returns the whole collection (the collection the
  lazy initialisation loaded, which is the service's own once it is initialised),
  whatever the tasks' \<open>projectId\<close>; an omitted argument is \<open>'default'\<close>; any other id
  returns exactly the tasks whose \<open>projectId\<close> is that id, in order.
\<close>

theorem getTasksByProject_master_view:
  "fst (getTasksByProject e st (Str ''default'') svc n) = tasks (fst (TaskService_initialize e st svc n))
   \<and> (s \<noteq> ''default'' \<longrightarrow>
        fst (getTasksByProject e st (Str s) svc n)
          = filter (\<lambda>t. projectId t = Str s) (tasks (fst (TaskService_initialize e st svc n))))
   \<and> fst (getTasksByProject e st Undefined svc n) = tasks (fst (TaskService_initialize e st svc n))
   \<and> (ts_initialized svc \<longrightarrow> tasks (fst (TaskService_initialize e st svc n)) = tasks svc)"
  by (simp add: getTasksByProject_def TaskService_initialize_def split: prod.splits)

theorem getTasksByProject_master_view_witness:
  "fst (getTasksByProject sample_env sample_storage (Str ''default'')
          \<lparr>tasks = [sample_task_a, sample_task_b], ts_initialized = True\<rparr> 0)
     = [sample_task_a, sample_task_b]
   \<and> fst (getTasksByProject sample_env sample_storage (Str ''p1'')
          \<lparr>tasks = [sample_task_a, sample_task_b], ts_initialized = True\<rparr> 0)
     = [sample_task_b]
   \<and> projectId sample_task_b \<noteq> Str ''default''"
proof -
  let ?svc = "\<lparr>tasks = [sample_task_a, sample_task_b], ts_initialized = True\<rparr>"
  have ne: "''p1'' \<noteq> ''default''"
    by simp
  have init: "ts_initialized ?svc"
    by simp
  have flt: "filter (\<lambda>t. projectId t = Str ''p1'') [sample_task_a, sample_task_b] = [sample_task_b]"
    by (simp add: sample_task_a_def sample_task_b_def)
  have pb: "projectId sample_task_b \<noteq> Str ''default''"
    by (simp add: sample_task_b_def)
  show ?thesis
    using getTasksByProject_master_view [of sample_env sample_storage ?svc 0 "''p1''"] ne init flt pb
    by simp
qed

section \<open>Validation: the priority\<close>

lemma record_field_errors:
  "x \<in> set (fst (record_field k ok err v acc)) \<longleftrightarrow> x \<in> set (fst acc) \<or> (\<not> ok \<and> err = Some x)"
  by (auto simp: record_field_def split: option.splits)

lemma record_field_data:
  "get_prop (snd (record_field k ok err v acc)) k' = (if ok \<and> k = k' then v else get_prop (snd acc) k')"
  by (auto simp: record_field_def)

lemma validateRequired_error: "v_error (validateRequired v m) = Some x \<Longrightarrow> x = m"
  by (auto simp: validateRequired_def Let_def split: if_splits)

lemma validateRequired_not_priority:
  "v_error (validateRequired v (Required f)) \<noteq> Some PriorityNotValid"
  by (auto simp: validateRequired_def Let_def split: if_splits)

lemma set_error_case: "x \<in> set (case err of Some y \<Rightarrow> [y] | None \<Rightarrow> []) \<longleftrightarrow> err = Some x"
  by (cases err) auto

lemma validateLength_error: "v_error (validateLength v a b f) \<noteq> Some PriorityNotValid"
  by (auto simp: validateLength_def Let_def split: if_splits option.splits)

lemma validateDate_error: "v_error (validateDate e v f) \<noteq> Some PriorityNotValid"
  by (auto simp: validateDate_def Let_def split: if_splits option.splits jsdate.splits)

lemma validateChecklist_error: "v_error (validateChecklist v) \<noteq> Some PriorityNotValid"
  by (auto simp: validateChecklist_def Let_def split: if_splits option.splits jsval.splits prod.splits)

lemma validatePriority_error:
  "v_error (validatePriority p) = Some x \<longleftrightarrow>
     x = PriorityNotValid \<and> (\<exists>s. p = Str s \<and> s \<noteq> [] \<and> trim (toLowerCase s) \<notin> set validPriorities)"
  by (auto simp: validatePriority_def Let_def split: jsval.splits)

lemma validatePriority_error_sym:
  "Some x = v_error (validatePriority p) \<longleftrightarrow>
     x = PriorityNotValid \<and> (\<exists>s. p = Str s \<and> s \<noteq> [] \<and> trim (toLowerCase s) \<notin> set validPriorities)"
  using validatePriority_error [of p x] by auto

lemma validatePriority_valid:
  "v_valid (validatePriority p) \<longleftrightarrow>
     \<not> (\<exists>s. p = Str s \<and> s \<noteq> [] \<and> trim (toLowerCase s) \<notin> set validPriorities)"
  by (auto simp: validatePriority_def Let_def split: jsval.splits)

lemma validatePriority_default:
  "\<not> truthy p \<or> typeof p \<noteq> ''string'' \<Longrightarrow>
     validatePriority p = \<lparr>v_valid = True, v_error = None, v_value = ''medium''\<rparr>"
  by (cases p) (auto simp: validatePriority_def)

lemma validateTaskData_priority_error:
  "PriorityNotValid \<in> set (td_errors (validateTaskData e taskData)) \<longleftrightarrow>
     (\<exists>s. get_prop taskData ''priority'' = Str s \<and> s \<noteq> [] \<and> trim (toLowerCase s) \<notin> set validPriorities)"
  unfolding validateTaskData_def Let_def
  by (simp add: record_field_errors validateLength_error validateDate_error validateChecklist_error
      validatePriority_valid validatePriority_error validatePriority_error_sym
      validateRequired_not_priority set_error_case)

lemma validateTaskData_priority_data:
  "get_prop (td_data (validateTaskData e taskData)) ''priority''
     = Str (v_value (validatePriority (get_prop taskData ''priority'')))"
  unfolding validateTaskData_def Let_def
  by (simp add: record_field_data)

text \<open>
  C10: when \<open>priority\<close> is missing, falsy or not a string, \<open>validatePriority\<close> answers valid
  with the value \<open>'medium'\<close>, and \<open>validateTaskData\<close> reports no priority error and puts
  \<open>'medium'\<close> into the validated data. \<open>validateTaskData\<close> reports a priority error exactly
  for a non-empty string that, lowercased and trimmed, is none of \<open>'high'\<close>, \<open>'medium'\<close>,
  \<open>'low'\<close>.
\<close>

theorem validateTaskData_priority_default:
  assumes "get_prop taskData ''priority'' = p"
  shows "(\<not> truthy p \<or> typeof p \<noteq> ''string'' \<longrightarrow>
            validatePriority p = \<lparr>v_valid = True, v_error = None, v_value = ''medium''\<rparr>
          \<and> PriorityNotValid \<notin> set (td_errors (validateTaskData e taskData))
          \<and> get_prop (td_data (validateTaskData e taskData)) ''priority'' = Str ''medium'')
       \<and> (PriorityNotValid \<in> set (td_errors (validateTaskData e taskData)) \<longleftrightarrow>
            (\<exists>s. p = Str s \<and> s \<noteq> [] \<and> trim (toLowerCase s) \<notin> {''high'', ''medium'', ''low''}))"
proof -
  have iff: "PriorityNotValid \<in> set (td_errors (validateTaskData e taskData)) \<longleftrightarrow>
      (\<exists>s. p = Str s \<and> s \<noteq> [] \<and> trim (toLowerCase s) \<notin> {''high'', ''medium'', ''low''})"
    using assms validateTaskData_priority_error [of e taskData]
    by (simp add: validPriorities_def)
  have dflt: "\<not> truthy p \<or> typeof p \<noteq> ''string'' \<longrightarrow>
      validatePriority p = \<lparr>v_valid = True, v_error = None, v_value = ''medium''\<rparr>
      \<and> PriorityNotValid \<notin> set (td_errors (validateTaskData e taskData))
      \<and> get_prop (td_data (validateTaskData e taskData)) ''priority'' = Str ''medium''"
  proof
    assume c: "\<not> truthy p \<or> typeof p \<noteq> ''string''"
    then have v: "validatePriority p = \<lparr>v_valid = True, v_error = None, v_value = ''medium''\<rparr>"
      by (rule validatePriority_default)
    from c have "\<not> (\<exists>s. p = Str s \<and> s \<noteq> [] \<and> trim (toLowerCase s) \<notin> {''high'', ''medium'', ''low''})"
      by auto
    with iff have "PriorityNotValid \<notin> set (td_errors (validateTaskData e taskData))"
      by simp
    moreover have "get_prop (td_data (validateTaskData e taskData)) ''priority'' = Str ''medium''"
      using assms v by (simp add: validateTaskData_priority_data)
    ultimately show "validatePriority p = \<lparr>v_valid = True, v_error = None, v_value = ''medium''\<rparr>
      \<and> PriorityNotValid \<notin> set (td_errors (validateTaskData e taskData))
      \<and> get_prop (td_data (validateTaskData e taskData)) ''priority'' = Str ''medium''"
      using v by simp
  qed
  from dflt iff show ?thesis
    by (rule conjI)
qed

theorem validateTaskData_priority_default_witness:
  "PriorityNotValid \<notin> set (td_errors (validateTaskData sample_env
       [(''title'', Str ''Buy milk''), (''priority'', Num (Fin 5))]))
   \<and> get_prop (td_data (validateTaskData sample_env
       [(''title'', Str ''Buy milk''), (''priority'', Num (Fin 5))])) ''priority'' = Str ''medium''
   \<and> PriorityNotValid \<in> set (td_errors (validateTaskData sample_env
       [(''title'', Str ''Buy milk''), (''priority'', Str ''urgent'')]))"
proof -
  have h5: "get_prop [(''title'', Str ''Buy milk''), (''priority'', Num (Fin 5))] ''priority'' = Num (Fin 5)"
    by simp
  have c5: "\<not> truthy (Num (Fin 5)) \<or> typeof (Num (Fin 5)) \<noteq> ''string''"
    by simp
  have hu: "get_prop [(''title'', Str ''Buy milk''), (''priority'', Str ''urgent'')] ''priority'' = Str ''urgent''"
    by simp
  have cu: "\<exists>s. Str ''urgent'' = Str s \<and> s \<noteq> [] \<and> trim (toLowerCase s) \<notin> {''high'', ''medium'', ''low''}"
    by (simp add: trim_def toLowerCase_def lower_char_def is_space_def)
  show ?thesis
    using validateTaskData_priority_default [OF h5, of sample_env] c5
      validateTaskData_priority_default [OF hu, of sample_env] cu
    by blast
qed

section \<open>Models: a failed update\<close>

text \<open>
  \<open>Task.update\<close> constructs the merged task before it assigns anything: when the
  construction throws, the instance is as it was.
\<close>

lemma Task_update_failure_keeps_instance:
  "isl (fst (Task_update e n updates t)) \<Longrightarrow> fst (snd (Task_update e n updates t)) = t"
  by (auto simp: Task_update_def Let_def split: sum.splits prod.splits)

lemma Project_update_failure_by_name_keeps_instance:
  assumes "get_prop updates ''name'' \<noteq> Undefined"
    and "\<forall>s. get_prop updates ''name'' = Str s \<longrightarrow> trim s = []"
  shows "Project_update updates p = (Inl ProjectNameRequired, p)"
  using assms unfolding Project_update_def Let_def
  by (auto split: jsval.splits)

text \<open>
  C1 holds for Task and fails for Project: \<open>Project.update\<close> validates and assigns the
  name before it validates the task count. An update with a valid name and a negative
  task count throws the task count error and leaves the instance with the new name.
\<close>

theorem Project_update_partial_mutation:
  assumes "trim s \<noteq> []" and "num_lt0 c"
  shows "Project_update [(''name'', Str s), (''taskCount'', Num c)] p
           = (Inl TaskCountInvalid, p\<lparr>name := trim s\<rparr>)"
proof -
  from assms(1) have "s \<noteq> []"
    by (auto simp: trim_def)
  with assms show ?thesis
    by (simp add: Project_update_def)
qed

theorem Project_update_partial_mutation_witness:
  "Project_update [(''name'', Str ''B''), (''taskCount'', Num (Fin (- 1)))] sample_project
     = (Inl TaskCountInvalid,
        \<lparr>project_id = Str ''p1'', name = ''B'', project_createdAt = Instant 5, taskCount = Fin 0\<rparr>)
   \<and> name sample_project = ''A''"
proof -
  have t: "trim ''B'' \<noteq> []" "trim ''B'' = ''B''"
    by (simp_all add: trim_def is_space_def)
  have c: "num_lt0 (Fin (- 1))"
    by simp
  show ?thesis
    using Project_update_partial_mutation [OF t(1) c, of sample_project] t(2)
    by (simp add: sample_project_def)
qed

section \<open>ProjectService: the default project cannot be deleted\<close>

text \<open>
  C8: \<open>deleteProject('default')\<close> is rejected in every state of the service and of the
  store, and the rejection changes nothing: the call leaves the service, the store and
  the clock as the lazy initialisation, which every operation of the service runs
  first, left them; on an initialised service that is exactly as they were, the
  in-memory collection included.
\<close>

theorem deleteProject_default_rejected:
  "deleteProject e (Str ''default'') svc st n
     = (Inl CannotDeleteDefault, ProjectService_initialize e svc st n)
   \<and> (ps_initialized svc \<longrightarrow>
        deleteProject e (Str ''default'') svc st n = (Inl CannotDeleteDefault, svc, st, n))"
  by (simp add: deleteProject_def ProjectService_initialize_def split: prod.splits)

theorem deleteProject_default_rejected_witness:
  "deleteProject sample_env (Str ''default'')
       \<lparr>projects = [sample_project], ps_initialized = True\<rparr> sample_storage 0
     = (Inl CannotDeleteDefault, \<lparr>projects = [sample_project], ps_initialized = True\<rparr>, sample_storage, 0)
   \<and> projects (fst (snd (deleteProject sample_env (Str ''default'')
       \<lparr>projects = [sample_project], ps_initialized = True\<rparr> sample_storage 0))) = [sample_project]"
proof -
  have h: "ps_initialized \<lparr>projects = [sample_project], ps_initialized = True\<rparr>"
    by simp
  from h deleteProject_default_rejected
      [of sample_env "\<lparr>projects = [sample_project], ps_initialized = True\<rparr>" sample_storage 0]
  have "deleteProject sample_env (Str ''default'')
       \<lparr>projects = [sample_project], ps_initialized = True\<rparr> sample_storage 0
     = (Inl CannotDeleteDefault, \<lparr>projects = [sample_project], ps_initialized = True\<rparr>, sample_storage, 0)"
    by blast
  then show ?thesis
    by simp
qed

section \<open>StorageService: saving when every write hits the quota\<close>

lemma attemptCleanup_flags:
  "attemptCleanup s = (b, s') \<Longrightarrow>
     isAvailable s' = isAvailable s \<and> quotaExceeded s' = quotaExceeded s
     \<and> usingFallback s' = usingFallback s \<and> fallbackStorage s' = fallbackStorage s"
  by (auto simp: attemptCleanup_def Let_def split: prod.splits if_splits)

lemma switchToFallback_flags:
  "usingFallback (switchToFallback e s) = True
   \<and> quotaExceeded (switchToFallback e s) = quotaExceeded s
   \<and> isAvailable (switchToFallback e s) = isAvailable s"
  by (auto simp: switchToFallback_def migrateToFallback_def)

lemma save_returns_true: "fst (save e key data s) = True"
  by (auto simp: save_def Let_def split: prod.splits sum.splits store_error.splits)

text \<open>
  C2: when every write to the store throws the quota error, \<open>save\<close> returns true, in
  every state of the service. The following \<open>load\<close> of the key reads the fallback map
  through \<open>get(fullKey) || null\<close>: it returns the saved value when that value is truthy
  and null when it is falsy, so a saved \<open>0\<close>, \<open>false\<close> or empty string is loaded as null.
\<close>

theorem save_then_load_under_quota:
  assumes "\<forall>ls k v. setItem e ls k v = Inl QuotaExceededError"
  shows "fst (save e key data s) = True
       \<and> load e key (snd (save e key data s)) = (if truthy data then data else Null)"
  using assms
  by (auto simp: save_def load_def Let_def fallback_get_def or_else_def switchToFallback_def
        migrateToFallback_def
      split: prod.splits sum.splits store_error.splits)

theorem save_then_load_under_quota_witness:
  "fst (save sample_env ''counter'' (Num (Fin 0)) sample_storage) = True
   \<and> load sample_env ''counter'' (snd (save sample_env ''counter'' (Num (Fin 0)) sample_storage)) = Null
   \<and> load sample_env ''tasks'' (snd (save sample_env ''tasks'' (Arr []) sample_storage)) = Arr []"
proof -
  have h: "\<forall>ls k v. setItem sample_env ls k v = Inl QuotaExceededError"
    by (simp add: sample_env_def)
  show ?thesis
    using save_then_load_under_quota [OF h, of "''counter''" "Num (Fin 0)" sample_storage]
      save_then_load_under_quota [OF h, of "''tasks''" "Arr []" sample_storage]
    by simp
qed

section \<open>StorageService: the quota flag\<close>

text \<open>
  C5 as stated fails: a save whose write throws the quota error, and whose clean-up
  frees nothing, stores the value in the fallback map and returns true with the flag
  still set.
\<close>

theorem save_true_flag_set_counterexample:
  "fst (save sample_env ''tasks'' (Arr []) sample_storage) = True
   \<and> isQuotaExceeded (snd (save sample_env ''tasks'' (Arr []) sample_storage)) = True
   \<and> isUsingFallback (snd (save sample_env ''tasks'' (Arr []) sample_storage)) = True"
  by (simp add: save_def sample_env_def sample_storage_def attemptCleanup_def prefixed_keys_def
      switchToFallback_def migrateToFallback_def isQuotaExceeded_def isUsingFallback_def
      fullKey_def startsWith_def prefix_def Let_def)

text \<open>
  C5 (amended): \<open>save\<close> always returns true. The flag is cleared by every save whose
  write reaches the underlying store, at the first attempt or at the retry after the
  clean-up: when the service is available and is not in fallback mode after the call,
  \<open>isQuotaExceeded()\<close> is false. A save that goes to the fallback map because the service
  is unavailable or already in fallback mode leaves the flag as it was, and a save whose
  write throws the quota error and ends in fallback mode leaves the flag set.
\<close>

theorem save_clears_quota_flag_on_store_write:
  "fst (save e key data s) = True
   \<and> (isAvailable s \<and> \<not> isUsingFallback (snd (save e key data s))
        \<longrightarrow> \<not> isQuotaExceeded (snd (save e key data s)))
   \<and> (\<not> isAvailable s \<or> isUsingFallback s
        \<longrightarrow> isQuotaExceeded (snd (save e key data s)) = isQuotaExceeded s)
   \<and> (isAvailable s \<and> \<not> isUsingFallback s
       \<and> setItem e (localStorage s) (fullKey key) (JSON_stringify e data) = Inl QuotaExceededError
       \<and> isUsingFallback (snd (save e key data s))
        \<longrightarrow> isQuotaExceeded (snd (save e key data s)))"
proof -
  have a: "fst (save e key data s) = True"
    by (rule save_returns_true)
  have b: "isAvailable s \<and> \<not> isUsingFallback (snd (save e key data s))
      \<longrightarrow> \<not> isQuotaExceeded (snd (save e key data s))"
    by (auto simp: save_def Let_def switchToFallback_flags isQuotaExceeded_def isUsingFallback_def
        split: prod.splits sum.splits store_error.splits if_splits dest: attemptCleanup_flags)
  have c: "\<not> isAvailable s \<or> isUsingFallback s
      \<longrightarrow> isQuotaExceeded (snd (save e key data s)) = isQuotaExceeded s"
    by (auto simp: save_def Let_def isQuotaExceeded_def isUsingFallback_def)
  have d: "isAvailable s \<and> \<not> isUsingFallback s
      \<and> setItem e (localStorage s) (fullKey key) (JSON_stringify e data) = Inl QuotaExceededError
      \<and> isUsingFallback (snd (save e key data s))
      \<longrightarrow> isQuotaExceeded (snd (save e key data s))"
    by (auto simp: save_def Let_def switchToFallback_flags isQuotaExceeded_def isUsingFallback_def
        split: prod.splits sum.splits store_error.splits if_splits dest: attemptCleanup_flags)
  from a b c d show ?thesis
    by blast
qed

theorem save_clears_quota_flag_on_store_write_witness:
  "isAvailable (sample_storage\<lparr>quotaExceeded := True\<rparr>)
   \<and> isQuotaExceeded (sample_storage\<lparr>quotaExceeded := True\<rparr>)
   \<and> \<not> isUsingFallback (snd (save (sample_env\<lparr>setItem := (\<lambda>ls k v. Inr (set_prop ls k v))\<rparr>)
         ''tasks'' (Arr []) (sample_storage\<lparr>quotaExceeded := True\<rparr>)))
   \<and> \<not> isQuotaExceeded (snd (save (sample_env\<lparr>setItem := (\<lambda>ls k v. Inr (set_prop ls k v))\<rparr>)
         ''tasks'' (Arr []) (sample_storage\<lparr>quotaExceeded := True\<rparr>)))"
proof -
  let ?e = "sample_env\<lparr>setItem := (\<lambda>ls k v. Inr (set_prop ls k v))\<rparr>"
  let ?s = "sample_storage\<lparr>quotaExceeded := True\<rparr>"
  have av: "isAvailable ?s" "isQuotaExceeded ?s"
    by (simp_all add: sample_storage_def isQuotaExceeded_def)
  have nf: "\<not> isUsingFallback (snd (save ?e ''tasks'' (Arr []) ?s))"
    by (simp add: save_def sample_storage_def sample_env_def isUsingFallback_def Let_def)
  show ?thesis
    using av nf save_clears_quota_flag_on_store_write [of ?e "''tasks''" "Arr []" ?s]
    by blast
qed


section \<open>StorageService: loading the task collection\<close>

lemma Task_new_isl: "isl (Task_new e n arg) = (Task_validate arg \<noteq> None)"
  unfolding Task_new_def Let_def
  by (auto split: option.splits prod.splits)

lemma Task_fromJSON_isl_counter: "isl (Task_fromJSON e n d) = isl (Task_fromJSON e m d)"
  unfolding Task_fromJSON_def by (simp add: Task_new_isl)

lemma Task_fromJSON_missing_title:
  "prop_of d ''title'' = Undefined \<Longrightarrow> isl (Task_fromJSON e n d)"
  unfolding Task_fromJSON_def by (simp add: Task_new_isl Task_validate_def)

text \<open>
  The loop collects, in order, one instance for each record whose construction
  succeeds; whether a construction succeeds does not depend on the tick counter.
\<close>

lemma load_each_valid:
  assumes "\<And>n m d. isl (mk n d) = isl (mk m d)"
  shows "list_all2 (\<lambda>x d. \<exists>m m'. mk m d = Inr (x, m'))
           (fst (load_each mk n ds)) (filter (\<lambda>d. \<not> isl (mk 0 d)) ds)"
proof (induction ds arbitrary: n)
  case Nil
  then show ?case by simp
next
  case (Cons d ds)
  show ?case
  proof (cases "mk n d")
    case (Inl err)
    then have "isl (mk 0 d)"
      using assms [of 0 d n] by simp
    with Inl Cons show ?thesis
      by simp
  next
    case (Inr r)
    obtain x n1 where r: "r = (x, n1)"
      by (cases r)
    from Inr have "\<not> isl (mk 0 d)"
      using assms [of 0 d n] by simp
    with Inr r Cons [of n1] show ?thesis
      by (auto split: prod.splits)
  qed
qed

lemma loadTasks_not_array:
  "(\<forall>records. load e (prefix @ ''tasks'') s \<noteq> Arr records) \<Longrightarrow> loadTasks e n s = ([], n)"
  by (auto simp: loadTasks_def Let_def split: jsval.splits)

text \<open>
  C3: \<open>loadTasks\<close> has no throwing path (a throwing construction is caught inside the
  loop). When the stored collection is the array \<open>records\<close>, the result corresponds,
  one to one and in order, to the records whose construction succeeds: each returned
  task is what \<open>Task.fromJSON\<close> builds from its record, and every other record is
  dropped. A collection of valid records with one record that has no \<open>title\<close> among
  them loads as many tasks as there are valid records: two for two.
\<close>

theorem loadTasks_keeps_valid_records:
  assumes "load e (prefix @ ''tasks'') s = Arr records"
  shows "list_all2 (\<lambda>t d. \<exists>m m'. Task_fromJSON e m d = Inr (t, m'))
           (fst (loadTasks e n s)) (filter (\<lambda>d. \<not> isl (Task_fromJSON e 0 d)) records)
       \<and> length (fst (loadTasks e n s)) = length (filter (\<lambda>d. \<not> isl (Task_fromJSON e 0 d)) records)
       \<and> (records = valid1 @ [bad] @ valid2
            \<and> list_all (\<lambda>d. \<not> isl (Task_fromJSON e 0 d)) (valid1 @ valid2)
            \<and> prop_of bad ''title'' = Undefined
          \<longrightarrow> length (fst (loadTasks e n s)) = length valid1 + length valid2)"
proof -
  have eq: "loadTasks e n s = load_each (Task_fromJSON e) n records"
    using assms by (simp add: loadTasks_def)
  have all2: "list_all2 (\<lambda>t d. \<exists>m m'. Task_fromJSON e m d = Inr (t, m'))
           (fst (loadTasks e n s)) (filter (\<lambda>d. \<not> isl (Task_fromJSON e 0 d)) records)"
    unfolding eq by (rule load_each_valid) (rule Task_fromJSON_isl_counter)
  then have len: "length (fst (loadTasks e n s))
      = length (filter (\<lambda>d. \<not> isl (Task_fromJSON e 0 d)) records)"
    by (rule list_all2_lengthD)
  have ex: "records = valid1 @ [bad] @ valid2
            \<and> list_all (\<lambda>d. \<not> isl (Task_fromJSON e 0 d)) (valid1 @ valid2)
            \<and> prop_of bad ''title'' = Undefined
          \<longrightarrow> length (fst (loadTasks e n s)) = length valid1 + length valid2"
  proof
    assume h: "records = valid1 @ [bad] @ valid2
            \<and> list_all (\<lambda>d. \<not> isl (Task_fromJSON e 0 d)) (valid1 @ valid2)
            \<and> prop_of bad ''title'' = Undefined"
    then have "isl (Task_fromJSON e 0 bad)"
      by (simp add: Task_fromJSON_missing_title)
    with h have "filter (\<lambda>d. \<not> isl (Task_fromJSON e 0 d)) records = valid1 @ valid2"
      by (simp add: list_all_iff)
    with len show "length (fst (loadTasks e n s)) = length valid1 + length valid2"
      by simp
  qed
  from all2 len ex show ?thesis
    by blast
qed

theorem loadTasks_keeps_valid_records_witness:
  "load stored_env (prefix @ ''tasks'') stored_storage = Arr sample_records
   \<and> length sample_records = 3
   \<and> length (fst (loadTasks stored_env 0 stored_storage)) = 2
   \<and> map task_id (fst (loadTasks stored_env 0 stored_storage)) = [Str ''t1'', Str ''t2'']"
proof -
  have h: "load stored_env (prefix @ ''tasks'') stored_storage = Arr sample_records"
    by code_simp
  have r: "sample_records = [sample_records ! 0] @ [sample_records ! 1] @ [sample_records ! 2]"
    by (simp add: sample_records_def)
  have v: "list_all (\<lambda>d. \<not> isl (Task_fromJSON stored_env 0 d)) ([sample_records ! 0] @ [sample_records ! 2])"
    by code_simp
  have b: "prop_of (sample_records ! 1) ''title'' = Undefined"
    by code_simp
  have ids: "map task_id (fst (loadTasks stored_env 0 stored_storage)) = [Str ''t1'', Str ''t2'']"
    by code_simp
  have "length (fst (loadTasks stored_env 0 stored_storage)) = 2"
    using loadTasks_keeps_valid_records [OF h, of 0 "[sample_records ! 0]" "sample_records ! 1" "[sample_records ! 2]"]
      r v b
    by simp
  with h ids show ?thesis
    by (simp add: sample_records_def)
qed

section \<open>Task: serialisation round trip\<close>

lemma dropWhile_rev_dropWhile:
  assumes "xs = [] \<or> \<not> P (hd xs)"
  shows "dropWhile P (rev (dropWhile P (rev xs))) = rev (dropWhile P (rev xs))"
proof -
  let ?y = "rev (dropWhile P (rev xs))"
  have "rev (takeWhile P (rev xs) @ dropWhile P (rev xs)) = xs"
    by simp
  then have xs: "xs = ?y @ rev (takeWhile P (rev xs))"
    by (simp only: rev_append)
  have "?y = [] \<or> \<not> P (hd ?y)"
  proof (cases "?y = []")
    case False
    with xs have "hd xs = hd ?y"
      by (metis hd_append2)
    moreover from False xs have "xs \<noteq> []"
      by auto
    ultimately show ?thesis
      using assms by simp
  qed simp
  then show ?thesis
    by (simp only: dropWhile_eq_self_iff)
qed

lemma trim_idem: "trim (trim s) = trim s"
proof -
  let ?x = "dropWhile is_space s"
  have "?x = [] \<or> \<not> is_space (hd ?x)"
    using hd_dropWhile [of is_space s] by blast
  then have "dropWhile is_space (trim s) = trim s"
    unfolding trim_def by (rule dropWhile_rev_dropWhile)
  then show ?thesis
    by (simp add: trim_def)
qed

lemma check_items_values:
  "list_all (\<lambda>it. item_text it \<noteq> []) items \<Longrightarrow> check_items i (map item_value items) = None"
  by (induction items arbitrary: i) (auto simp: check_item_def item_value_def prop_of_def)

lemma build_items_values:
  "list_all (\<lambda>it. truthy (item_id it) \<and> trim (item_text it) = item_text it) items
     \<Longrightarrow> build_items e n (map item_value items) = (items, n)"
  by (induction items) (auto simp: item_value_def prop_of_def str_of_def)

lemma build_items_constructed:
  assumes "\<forall>k. uuidv4 e k \<noteq> []"
  shows "list_all (\<lambda>it. truthy (item_id it) \<and> trim (item_text it) = item_text it)
           (fst (build_items e n xs))"
  using assms
  by (induction xs arbitrary: n) (simp_all add: case_prod_beta Let_def trim_idem)

lemma Task_new_constructed:
  assumes "Task_new e n arg = Inr (t, n')" and "\<forall>k. uuidv4 e k \<noteq> []"
  shows "constructed t"
proof -
  from assms(1) have v: "Task_validate arg = None"
    by (auto simp: Task_new_def split: option.splits)
  then have ttl: "trim (str_of (get_prop arg ''title'')) \<noteq> []"
    and prio: "param arg ''priority'' (Str ''medium'') \<in> set (map Str validPriorities)"
    by (auto simp: Task_validate_def Let_def split: if_splits)
  from prio have p: "str_of (param arg ''priority'' (Str ''medium'')) \<in> set validPriorities"
    by (auto simp: str_of_def)
  from assms(1) v have t: "t = fst (projr (Task_new e n arg))"
    by simp
  have id: "truthy (task_id t)"
    unfolding t using v assms(2) by (simp add: Task_new_def Let_def case_prod_beta)
  have ti: "title t = trim (str_of (get_prop arg ''title''))"
    unfolding t using v by (simp add: Task_new_def Let_def case_prod_beta)
  have de: "or_else (description t) (Str []) = description t"
    unfolding t using v by (simp add: Task_new_def Let_def case_prod_beta or_else_def)
  have pr: "priority t = str_of (param arg ''priority'' (Str ''medium''))"
    unfolding t using v by (simp add: Task_new_def Let_def case_prod_beta)
  have no: "or_else (task_notes t) (Str []) = task_notes t"
    unfolding t using v by (simp add: Task_new_def Let_def case_prod_beta or_else_def)
  have pi: "truthy (projectId t)"
    unfolding t using v by (simp add: Task_new_def Let_def case_prod_beta or_else_def)
  have ch: "list_all (\<lambda>it. truthy (item_id it) \<and> trim (item_text it) = item_text it) (checklist t)"
    unfolding t using v by (simp add: Task_new_def Let_def case_prod_beta build_items_constructed [OF assms(2)])
  from id ti de pr no pi ch ttl p show ?thesis
    by (simp add: constructed_def trim_idem)
qed

lemma Task_roundtrip:
  assumes "constructed t" and "serialisable e t"
  shows "\<exists>j. Task_toJSON e t = Inr j \<and> Task_fromJSON e m j = Inr (t, m)"
proof -
  obtain c where c: "createdAt t = Instant c" "toISOString e c \<noteq> []" "Date_parse e (toISOString e c) = Instant c"
    using assms(2) by (auto simp: serialisable_def prints_and_parses_def split: jsdate.splits)
  obtain u where u: "updatedAt t = Instant u" "toISOString e u \<noteq> []" "Date_parse e (toISOString e u) = Instant u"
    using assms(2) by (auto simp: serialisable_def prints_and_parses_def split: jsdate.splits)
  have items1: "check_items 0 (map item_value (checklist t)) = None"
    using assms(2) by (simp add: serialisable_def check_items_values)
  have items2: "build_items e m (map item_value (checklist t)) = (checklist t, m)"
    using assms(1) by (simp add: constructed_def build_items_values)
  have d: "description t \<noteq> Undefined" "task_notes t \<noteq> Undefined" "task_id t \<noteq> Undefined" "projectId t \<noteq> Undefined"
    using assms(1) by (auto simp: constructed_def or_else_def split: if_splits)
  show ?thesis
  proof (cases "dueDate t")
    case None
    let ?j = "Obj [(''id'', task_id t), (''title'', Str (title t)),
                          (''description'', description t), (''dueDate'', Null),
                          (''priority'', Str (priority t)), (''notes'', task_notes t),
                          (''checklist'', Arr (map item_value (checklist t))),
                          (''completed'', Bool (completed t)), (''projectId'', projectId t),
                          (''createdAt'', Str (toISOString e c)), (''updatedAt'', Str (toISOString e u))]"
    have j: "Task_toJSON e t = Inr ?j"
      using None c u by (simp add: Task_toJSON_def iso_def)
    have "Task_fromJSON e m ?j = Inr (t, m)"
      using None c u d items1 items2 assms(1)
      by (simp add: Task_fromJSON_def Task_new_def Task_validate_def prop_of_def param_def
          or_else_def str_of_def is_Date_def new_Date_def constructed_def Let_def)
    with j show ?thesis by blast
  next
    case (Some dd)
    then obtain x where x: "dd = Instant x" "toISOString e x \<noteq> []" "Date_parse e (toISOString e x) = Instant x"
      using assms(2) by (auto simp: serialisable_def prints_and_parses_def split: jsdate.splits)
    let ?j = "Obj [(''id'', task_id t), (''title'', Str (title t)),
                          (''description'', description t), (''dueDate'', Str (toISOString e x)),
                          (''priority'', Str (priority t)), (''notes'', task_notes t),
                          (''checklist'', Arr (map item_value (checklist t))),
                          (''completed'', Bool (completed t)), (''projectId'', projectId t),
                          (''createdAt'', Str (toISOString e c)), (''updatedAt'', Str (toISOString e u))]"
    have j: "Task_toJSON e t = Inr ?j"
      using Some x c u by (simp add: Task_toJSON_def iso_def)
    have "Task_fromJSON e m ?j = Inr (t, m)"
      using Some x c u d items1 items2 assms(1)
      by (simp add: Task_fromJSON_def Task_new_def Task_validate_def prop_of_def param_def
          or_else_def str_of_def is_Date_def new_Date_def constructed_def Let_def)
    with j show ?thesis by blast
  qed
qed

text \<open>
  The round trip holds for every constructed task whose dates are valid instants and
  whose checklist texts are not empty.
\<close>

lemma Task_roundtrip_of_constructed:
  assumes "Task_new e n arg = Inr (t, n')" and "\<forall>k. uuidv4 e k \<noteq> []" and "serialisable e t"
  shows "\<exists>j. Task_toJSON e t = Inr j \<and> Task_fromJSON e m j = Inr (t, m)"
  using Task_roundtrip [OF Task_new_constructed [OF assms(1,2)] assms(3)] .

text \<open>
  C6 fails on the code. The constructor accepts a checklist item whose text is only
  white space (it tests the text before trimming it, where \<open>addChecklistItem\<close>,
  \<open>updateChecklistItem\<close> and the title test trim first) and stores the trimmed, empty
  text; \<open>toJSON\<close> writes that item, and the constructor called by \<open>fromJSON\<close> rejects it.
  The constructor also accepts a due date string that does not parse, and \<open>toJSON\<close> of
  the task it builds throws a RangeError.
\<close>

theorem Task_roundtrip_blank_checklist_text:
  "Task_new sample_env 0
      [(''title'', Str ''a''),
       (''checklist'', Arr [Obj [(''text'', Str '' ''), (''completed'', Bool False)]])]
     = Inr (blank_item_task, 4)
   \<and> Task_toJSON sample_env blank_item_task = Inr blank_item_json
   \<and> Task_fromJSON sample_env 4 blank_item_json = Inl (ChecklistItemNoText 0)
   \<and> Task_new sample_env 0 [(''title'', Str ''a''), (''dueDate'', Str ''soon'')] = Inr (bad_date_task, 3)
   \<and> Task_toJSON sample_env bad_date_task = Inl RangeError"
  by code_simp

theorem Task_roundtrip_blank_checklist_text_witness:
  "isl (Task_fromJSON sample_env 4 blank_item_json)
   \<and> isl (Task_toJSON sample_env bad_date_task)"
  using Task_roundtrip_blank_checklist_text by simp


section \<open>Task: the checklist percentage\<close>

subsection \<open>The error of the computed percentage\<close>

lemma percentage_error:
  assumes "0 < n" and "c \<le> n"
  shows "\<bar>to_double (to_double (of_nat c / of_nat n) * 100) - 100 * of_nat c / of_nat n\<bar> \<le> 300 / 2 ^ 53"
proof -
  let ?x = "of_nat c / of_nat n :: rat"
  let ?q = "to_double ?x"
  let ?p = "to_double (?q * 100)"
  have x0: "0 \<le> ?x" by simp
  have x1: "?x \<le> 1" using assms by (simp add: divide_le_eq)
  have q0: "0 \<le> ?q" using x0 by (rule to_double_nonneg)
  have e1: "\<bar>?q - ?x\<bar> \<le> ?x / 2 ^ 53" using x0 by (rule to_double_err)
  have "?x / 2 ^ 53 \<le> 1 / 2 ^ 53" using x1 by (simp add: divide_right_mono)
  with e1 have e1': "\<bar>?q - ?x\<bar> \<le> 1 / 2 ^ 53" by linarith
  moreover have "(1::rat) / 2 ^ 53 \<le> 1" by simp
  ultimately have "\<bar>?q - ?x\<bar> \<le> 1" by linarith
  with x1 have q2: "?q \<le> 2" by linarith
  have e2: "\<bar>?p - ?q * 100\<bar> \<le> (?q * 100) / 2 ^ 53"
    using q0 by (intro to_double_err) simp
  have "(?q * 100) / 2 ^ 53 \<le> 200 / 2 ^ 53" using q2 by (simp add: divide_right_mono)
  with e2 have e2': "\<bar>?p - ?q * 100\<bar> \<le> 200 / 2 ^ 53" by linarith
  have "100 * of_nat c / of_nat n = 100 * ?x"
    by simp
  with e1' e2' show ?thesis
    by linarith
qed

lemma floor_stable:
  fixes p x d :: rat
  assumes "of_int R + d \<le> x" and "x \<le> of_int R + 1 - d" and "\<bar>p - x\<bar> < d"
  shows "\<lfloor>p\<rfloor> = R"
proof -
  from assms have "of_int R \<le> p" "p < of_int R + 1"
    by (auto simp: abs_less_iff)
  then show ?thesis
    by (simp add: floor_unique)
qed

lemma half_split:
  fixes c n :: nat
  assumes "0 < n"
  shows "(100 * of_nat c / of_nat n :: rat) + 1 / 2
           = of_int (spec_percentage c n) + of_nat ((200 * c + n) mod (2 * n)) / of_nat (2 * n)"
proof -
  let ?N = "200 * c + n" and ?D = "2 * n"
  have D: "0 < ?D" using assms by simp
  have x: "(100 * of_nat c / of_nat n :: rat) + 1 / 2 = of_nat ?N / of_nat ?D"
    using assms by (simp add: field_simps)
  have fl: "\<lfloor>(of_nat ?N / of_nat ?D :: rat)\<rfloor> = int (?N div ?D)"
    by (metis floor_divide_of_nat_eq)
  have "(of_nat ?N :: rat) = of_nat (?D * (?N div ?D) + ?N mod ?D)"
    by simp
  also have "\<dots> = of_nat ?D * of_nat (?N div ?D) + of_nat (?N mod ?D)"
    by (simp only: of_nat_add of_nat_mult)
  finally have "(of_nat ?N / of_nat ?D :: rat) = of_nat (?N div ?D) + of_nat (?N mod ?D) / of_nat ?D"
    using D by (simp add: field_simps)
  with x fl show ?thesis
    by (simp add: spec_percentage_def)
qed

lemma halfway_iff:
  assumes "0 < n"
  shows "halfway c n \<longleftrightarrow> (200 * c + n) mod (2 * n) = 0"
proof -
  let ?m = "(200 * c) mod (2 * n)"
  have m: "?m < 2 * n"
    using assms by simp
  have eq: "(200 * c + n) mod (2 * n) = (?m + n) mod (2 * n)"
    by (simp add: mod_add_left_eq)
  show ?thesis
  proof
    assume "halfway c n"
    then have "?m = n"
      by (simp add: halfway_def)
    moreover have "(n + n) mod (2 * n) = 0"
      by (simp add: mult_2)
    ultimately show "(200 * c + n) mod (2 * n) = 0"
      using eq by simp
  next
    assume "(200 * c + n) mod (2 * n) = 0"
    with eq have "(?m + n) mod (2 * n) = 0"
      by simp
    then obtain k where k: "?m + n = 2 * n * k"
      by (auto simp: mod_eq_0_iff_dvd)
    have "k = 1"
    proof (rule ccontr)
      assume "k \<noteq> 1"
      then consider "k = 0" | "2 \<le> k"
        by linarith
      then show False
      proof cases
        case 1
        with k assms show False by simp
      next
        case 2
        then have "2 * n * 2 \<le> 2 * n * k"
          by (intro mult_le_mono2)
        with k m show False by simp
      qed
    qed
    with k have "?m = n"
      by simp
    then show "halfway c n"
      by (simp add: halfway_def)
  qed
qed


lemma Math_round_range:
  fixes c n :: nat
  assumes "0 < n" and "c \<le> n"
  shows "0 \<le> Math_round (to_double (to_double (of_nat c / of_nat n) * 100))
       \<and> Math_round (to_double (to_double (of_nat c / of_nat n) * 100)) \<le> 100"
proof -
  let ?p = "to_double (to_double (of_nat c / of_nat n) * 100)"
  have "0 \<le> to_double (of_nat c / of_nat n)"
    by (rule to_double_nonneg) simp
  then have p0: "0 \<le> ?p"
    by (intro to_double_nonneg) simp
  have "(100 * of_nat c / of_nat n :: rat) \<le> 100"
    using assms by (simp add: divide_le_eq)
  moreover have "(300::rat) / 2 ^ 53 < 1 / 2"
    by simp
  ultimately have "?p + 1 / 2 < 101"
    using percentage_error [OF assms] by linarith
  then have "\<lfloor>?p + 1 / 2\<rfloor> < 101"
    by (simp add: floor_less_iff)
  moreover from p0 have "0 \<le> \<lfloor>?p + 1 / 2\<rfloor>"
    by simp
  ultimately show ?thesis
    by (simp add: Math_round_def)
qed

lemma small_error:
  fixes n :: nat
  assumes "0 < n" and "n < 2 ^ 32"
  shows "(300::rat) / 2 ^ 53 < 1 / of_nat (2 * n)"
proof -
  have "(of_nat (2 * n) :: rat) < of_nat (2 ^ 33)"
    using assms(2) by (simp only: of_nat_less_iff) simp
  then have "(of_nat (2 * n) :: rat) < 2 ^ 33"
    by simp
  moreover have "(0::rat) < of_nat (2 * n)"
    using assms(1) by simp
  ultimately have "(1::rat) / 2 ^ 33 < 1 / of_nat (2 * n)"
    by (intro divide_strict_left_mono) auto
  moreover have "(300::rat) / 2 ^ 53 < 1 / 2 ^ 33"
    by simp
  ultimately show ?thesis
    by linarith
qed

lemma Math_round_exact:
  fixes c n :: nat
  assumes "0 < n" and "c \<le> n" and "n < 2 ^ 32" and "\<not> halfway c n"
  shows "Math_round (to_double (to_double (of_nat c / of_nat n) * 100)) = spec_percentage c n"
proof -
  let ?p = "to_double (to_double (of_nat c / of_nat n) * 100)"
  let ?x = "(100 * of_nat c / of_nat n :: rat) + 1 / 2"
  let ?s = "(200 * c + n) mod (2 * n)"
  let ?d = "(1::rat) / of_nat (2 * n)"
  have D: "(0::rat) < of_nat (2 * n)"
    using assms(1) by simp
  have s1: "1 \<le> ?s"
    using assms(1,4) halfway_iff [of n c] by simp
  have "?s < 2 * n"
    using assms(1) by simp
  then have s2: "?s \<le> 2 * n - 1"
    by linarith
  have x: "?x = of_int (spec_percentage c n) + of_nat ?s / of_nat (2 * n)"
    using assms(1) by (rule half_split)
  have "(1::rat) \<le> of_nat ?s"
    using s1 by (metis of_nat_1 of_nat_le_iff)
  then have lo: "?d \<le> of_nat ?s / of_nat (2 * n)"
    using D by (simp add: divide_right_mono)
  have "(of_nat ?s :: rat) \<le> of_nat (2 * n - 1)"
    using s2 by (simp only: of_nat_le_iff)
  also have "\<dots> = of_nat (2 * n) - 1"
    using assms(1) by (simp add: of_nat_diff)
  finally have "(of_nat ?s :: rat) / of_nat (2 * n) \<le> (of_nat (2 * n) - 1) / of_nat (2 * n)"
    using D by (simp add: divide_right_mono)
  also have "\<dots> = 1 - ?d"
    using D by (simp add: field_simps)
  finally have hi: "(of_nat ?s :: rat) / of_nat (2 * n) \<le> 1 - ?d" .
  have err: "\<bar>(?p + 1 / 2) - ?x\<bar> < ?d"
    using percentage_error [OF assms(1,2)] small_error [OF assms(1,3)] by linarith
  have "\<lfloor>?p + 1 / 2\<rfloor> = spec_percentage c n"
  proof (rule floor_stable [where d = ?d and x = ?x])
    show "of_int (spec_percentage c n) + ?d \<le> ?x"
      using x lo by linarith
    show "?x \<le> of_int (spec_percentage c n) + 1 - ?d"
      using x hi by linarith
    show "\<bar>(?p + 1 / 2) - ?x\<bar> < ?d"
      by (rule err)
  qed
  then show ?thesis
    by (simp add: Math_round_def)
qed

lemma Math_round_halfway:
  fixes c n :: nat
  assumes "0 < n" and "c \<le> n" and "halfway c n"
  shows "Math_round (to_double (to_double (of_nat c / of_nat n) * 100)) = spec_percentage c n
       \<or> Math_round (to_double (to_double (of_nat c / of_nat n) * 100)) = spec_percentage c n - 1"
proof -
  let ?p = "to_double (to_double (of_nat c / of_nat n) * 100)"
  let ?x = "(100 * of_nat c / of_nat n :: rat) + 1 / 2"
  have "(200 * c + n) mod (2 * n) = 0"
    using assms(1,3) halfway_iff [of n c] by simp
  with half_split [OF assms(1), of c] have x: "?x = of_int (spec_percentage c n)"
    by simp
  have "(300::rat) / 2 ^ 53 < 1"
    by simp
  with percentage_error [OF assms(1,2)] x
  have b: "of_int (spec_percentage c n) - 1 \<le> ?p + 1 / 2" "?p + 1 / 2 < of_int (spec_percentage c n) + 1"
    by linarith+
  show ?thesis
  proof (cases "of_int (spec_percentage c n) \<le> ?p + 1 / 2")
    case True
    with b have "\<lfloor>?p + 1 / 2\<rfloor> = spec_percentage c n"
      by (intro floor_unique) auto
    then show ?thesis
      by (simp add: Math_round_def)
  next
    case False
    with b have "\<lfloor>?p + 1 / 2\<rfloor> = spec_percentage c n - 1"
      by (intro floor_unique) auto
    then show ?thesis
      by (simp add: Math_round_def)
  qed
qed


subsection \<open>The percentage\<close>

text \<open>
  C7 as stated fails: the code computes \<open>(completed / total) * 100\<close> in double
  precision, and the product can fall just below a half that \<open>100 * completed / total\<close>
  reaches exactly. With 23 of 40 items completed the quotient rounds to a double below
  0.575, the product to 57.49999999999999, and the percentage is 57, where
  \<open>round(100 * 23 / 40) = round(57.5)\<close> is 58.
\<close>

theorem getChecklistProgress_23_of_40_counterexample:
  "length (checklist (checklist_task 23 17)) = 40
   \<and> length (filter item_completed (checklist (checklist_task 23 17))) = 23
   \<and> percentage (getChecklistProgress (checklist_task 23 17)) = 57
   \<and> spec_percentage 23 40 = 58"
  by code_simp

text \<open>
  C7 (amended): for every task, hence after every sequence of checklist operations
  (with a checklist shorter than \<open>2^32\<close> items, the longest array there is),
  \<open>getChecklistProgress()\<close> returns the number of completed items, the
  length of the checklist, and a percentage in [0,100] that is 0 when the checklist is
  empty. When \<open>100 * completed / total\<close> is not exactly halfway between two integers the
  percentage equals \<open>round(100 * completed / total)\<close>; when it is exactly halfway the
  percentage is that value or one less.
\<close>

theorem getChecklistProgress_percentage_range:
  assumes "length (checklist t) < 2 ^ 32"
  shows "completed_count (getChecklistProgress t) = length (filter item_completed (checklist t))
       \<and> total (getChecklistProgress t) = length (checklist t)
       \<and> 0 \<le> percentage (getChecklistProgress t)
       \<and> percentage (getChecklistProgress t) \<le> 100
       \<and> (total (getChecklistProgress t) = 0 \<longrightarrow> percentage (getChecklistProgress t) = 0)
       \<and> (0 < total (getChecklistProgress t)
            \<and> \<not> halfway (completed_count (getChecklistProgress t)) (total (getChecklistProgress t))
          \<longrightarrow> percentage (getChecklistProgress t)
                = spec_percentage (completed_count (getChecklistProgress t)) (total (getChecklistProgress t)))
       \<and> (0 < total (getChecklistProgress t)
          \<longrightarrow> percentage (getChecklistProgress t)
                = spec_percentage (completed_count (getChecklistProgress t)) (total (getChecklistProgress t))
              \<or> percentage (getChecklistProgress t)
                = spec_percentage (completed_count (getChecklistProgress t)) (total (getChecklistProgress t)) - 1)"
proof (cases "length (checklist t) = 0")
  case True
  then show ?thesis
    by (simp add: getChecklistProgress_def)
next
  case False
  let ?c = "length (filter item_completed (checklist t))"
  let ?n = "length (checklist t)"
  let ?r = "Math_round (to_double (to_double (of_nat ?c / of_nat ?n) * 100))"
  have n: "0 < ?n" using False by simp
  have c: "?c \<le> ?n" by simp
  have pr: "getChecklistProgress t = \<lparr>completed_count = ?c, total = ?n, percentage = ?r\<rparr>"
    using False by (simp add: getChecklistProgress_def Let_def)
  have rng: "0 \<le> ?r \<and> ?r \<le> 100"
    using n c by (rule Math_round_range)
  have ex: "\<not> halfway ?c ?n \<longrightarrow> ?r = spec_percentage ?c ?n"
    using Math_round_exact [OF n c assms] by blast
  have near: "?r = spec_percentage ?c ?n \<or> ?r = spec_percentage ?c ?n - 1"
    using Math_round_halfway [OF n c] ex by blast
  from n rng ex near show ?thesis
    unfolding pr by simp
qed


theorem getChecklistProgress_percentage_range_witness:
  "length (checklist (checklist_task 1 2)) < 2 ^ 32
   \<and> total (getChecklistProgress (checklist_task 1 2)) = 3
   \<and> completed_count (getChecklistProgress (checklist_task 1 2)) = 1
   \<and> \<not> halfway 1 3
   \<and> spec_percentage 1 3 = 33
   \<and> percentage (getChecklistProgress (checklist_task 1 2)) = 33"
proof -
  have h: "length (checklist (checklist_task 1 2)) < 2 ^ 32"
    by (simp add: checklist_task_def)
  have n: "length (checklist (checklist_task 1 2)) = 3"
    by (simp add: checklist_task_def)
  have c: "length (filter item_completed (checklist (checklist_task 1 2))) = 1"
    by (simp add: checklist_task_def)
  have nh: "\<not> halfway 1 3"
    by (simp add: halfway_def)
  have sp: "spec_percentage 1 3 = 33"
    by code_simp
  show ?thesis
    using getChecklistProgress_percentage_range [OF h] h n c nh sp
    by simp
qed

end
